theory Spec2Isabelle
  imports Main "HOL-Library.AList" "HOL-Library.Sublist"
begin

section \<open>JavaScript values read from project.json\<close>

text \<open>
  The decompiler of \<^verbatim>\<open>src/util/decompile-util.ts\<close> receives its blocks, variables and
  lists as \<^verbatim>\<open>any\<close>: whatever \<^verbatim>\<open>JSON.parse\<close> built from the project file. The model
  keeps that: every argument is a \<open>json\<close> value, and each property read, method call and
  conversion is written out with the outcome JavaScript gives it.

  \<^item> A string is its sequence of UTF-8 bytes. Every string operation of the source
    (comparison, concatenation, \<^verbatim>\<open>startsWith\<close>, \<^verbatim>\<open>includes\<close>, \<^verbatim>\<open>split(' ')\<close>, \<^verbatim>\<open>trim\<close>,
    replacing one ASCII character) gives the encoding of the JavaScript result.
  \<^item> A number is the text \<^verbatim>\<open>Number.prototype.toString\<close> prints for it (\<open>''7''\<close>,
    \<open>''0.5''\<close>, \<open>''NaN''\<close>). The source never computes with a number of the project: it
    only tests it for truthiness and prints it. Parsing a string as a number
    (\<^verbatim>\<open>Number(value)\<close>) is a parameter \<open>toNumber\<close> of the functions below.
  \<^item> An object is the list of its own properties in the order \<^verbatim>\<open>Object.keys\<close>
    enumerates them; keys are distinct.
  \<^item> \<open>Unmodelled\<close> is the outcome of an operation whose JavaScript result is not a
    \<open>json\<close> value or is not described here: reading a member inherited from a
    prototype (a function), indexing a string by code unit, reading a named property of
    an array or a primitive. A result \<open>Inr x\<close> or \<open>Inl TypeError\<close> is what the
    source does.
\<close>

datatype json =
    JUndefined
  | JNull
  | JBool bool
  | JNum string
  | JStr string
  | JArr "json list"
  | JObj "(string \<times> json) list"

datatype error =
    TypeError
  | RangeError
  | Unmodelled

definition ebind :: "error + 'a \<Rightarrow> ('a \<Rightarrow> error + 'b) \<Rightarrow> error + 'b" where
  "ebind m f = (case m of Inl e \<Rightarrow> Inl e | Inr x \<Rightarrow> f x)"

fun sequence :: "(error + 'a) list \<Rightarrow> error + 'a list" where
  "sequence [] = Inr []"
| "sequence (m # ms) = ebind m (\<lambda>x. ebind (sequence ms) (\<lambda>xs. Inr (x # xs)))"

text \<open>Truthiness (\<^verbatim>\<open>if (x)\<close>, \<^verbatim>\<open>x && y\<close>, \<^verbatim>\<open>x || y\<close>).\<close>

fun js_truthy :: "json \<Rightarrow> bool" where
  "js_truthy JUndefined = False"
| "js_truthy JNull = False"
| "js_truthy (JBool b) = b"
| "js_truthy (JNum n) = (n \<noteq> ''0'' \<and> n \<noteq> ''NaN'')"
| "js_truthy (JStr s) = (s \<noteq> [])"
| "js_truthy (JArr xs) = True"
| "js_truthy (JObj kvs) = True"

definition js_or :: "json \<Rightarrow> json \<Rightarrow> json" where
  "js_or a b = (if js_truthy a then a else b)"

definition nullish :: "json \<Rightarrow> bool" where
  "nullish v = (v = JUndefined \<or> v = JNull)"

fun show_nat :: "nat \<Rightarrow> string" where
  "show_nat n =
     (if n < 10 then [''0123456789'' ! n]
      else show_nat (n div 10) @ [''0123456789'' ! (n mod 10)])"

declare show_nat.simps [simp del]

text \<open>The own enumerable-or-not members of \<^verbatim>\<open>Object.prototype\<close>: a plain object
  answers a read of one of these names with a function unless it has the key itself.\<close>

definition Object_prototype :: "string list" where
  "Object_prototype =
     [''constructor'', ''__defineGetter__'', ''__defineSetter__'', ''hasOwnProperty'',
      ''__lookupGetter__'', ''__lookupSetter__'', ''isPrototypeOf'',
      ''propertyIsEnumerable'', ''toString'', ''valueOf'', ''__proto__'',
      ''toLocaleString'']"

text \<open>\<^verbatim>\<open>v.k\<close> and \<^verbatim>\<open>v[k]\<close> for a string key; \<^verbatim>\<open>v?.k\<close>.\<close>

fun js_get :: "json \<Rightarrow> string \<Rightarrow> error + json" where
  "js_get JUndefined k = Inl TypeError"
| "js_get JNull k = Inl TypeError"
| "js_get (JObj kvs) k =
     (case map_of kvs k of
        Some v \<Rightarrow> Inr v
      | None \<Rightarrow> if k \<in> set Object_prototype then Inl Unmodelled else Inr JUndefined)"
| "js_get (JBool b) k = Inl Unmodelled"
| "js_get (JNum n) k = Inl Unmodelled"
| "js_get (JStr s) k = Inl Unmodelled"
| "js_get (JArr xs) k = Inl Unmodelled"

definition js_get_opt :: "json \<Rightarrow> string \<Rightarrow> error + json" where
  "js_get_opt v k = (if nullish v then Inr JUndefined else js_get v k)"

text \<open>\<^verbatim>\<open>v[i]\<close> for a number \<open>i\<close>; \<^verbatim>\<open>v?.[i]\<close>.\<close>

fun js_at :: "json \<Rightarrow> nat \<Rightarrow> error + json" where
  "js_at JUndefined i = Inl TypeError"
| "js_at JNull i = Inl TypeError"
| "js_at (JArr xs) i = Inr (if i < length xs then xs ! i else JUndefined)"
| "js_at (JObj kvs) i = js_get (JObj kvs) (show_nat i)"
| "js_at (JStr s) i = Inl Unmodelled"
| "js_at (JBool b) i = Inr JUndefined"
| "js_at (JNum n) i = Inr JUndefined"

definition js_at_opt :: "json \<Rightarrow> nat \<Rightarrow> error + json" where
  "js_at_opt v i = (if nullish v then Inr JUndefined else js_at v i)"

text \<open>\<^verbatim>\<open>Array.isArray(v)\<close>, \<^verbatim>\<open>typeof v === 'string'\<close>, \<^verbatim>\<open>typeof v === 'object'\<close>.\<close>

fun isArray :: "json \<Rightarrow> bool" where
  "isArray (JArr xs) = True"
| "isArray v = False"

fun isString :: "json \<Rightarrow> bool" where
  "isString (JStr s) = True"
| "isString v = False"

fun isObjectType :: "json \<Rightarrow> bool" where
  "isObjectType (JArr xs) = True"
| "isObjectType (JObj kvs) = True"
| "isObjectType JNull = True"
| "isObjectType v = False"

text \<open>\<^verbatim>\<open>Array.prototype.join\<close> on texts, and the conversion to a string of a template
  literal, of \<^verbatim>\<open>+=\<close> on a string and of a property key. An array prints its elements
  separated by commas, \<^verbatim>\<open>null\<close> and \<^verbatim>\<open>undefined\<close> as nothing; an object prints
  \<^verbatim>\<open>[object Object]\<close>, and raises when it has a \<^verbatim>\<open>toString\<close> key of its own (a JSON
  value is never callable).\<close>

fun join :: "string \<Rightarrow> string list \<Rightarrow> string" where
  "join sep [] = []"
| "join sep [x] = x"
| "join sep (x # y # ys) = x @ sep @ join sep (y # ys)"

fun js_toString :: "json \<Rightarrow> error + string" where
  "js_toString JUndefined = Inr ''undefined''"
| "js_toString JNull = Inr ''null''"
| "js_toString (JBool b) = Inr (if b then ''true'' else ''false'')"
| "js_toString (JNum n) = Inr n"
| "js_toString (JStr s) = Inr s"
| "js_toString (JArr xs) =
     ebind (sequence (map (\<lambda>x. if nullish x then Inr [] else js_toString x) xs))
       (\<lambda>ss. Inr (join '','' ss))"
| "js_toString (JObj kvs) =
     (if ''toString'' \<in> fst ` set kvs then Inl TypeError else Inr ''[object Object]'')"

text \<open>\<^verbatim>\<open>v.toString()\<close>: as above, but \<^verbatim>\<open>null\<close> and \<^verbatim>\<open>undefined\<close> have no members.\<close>

definition js_toString_method :: "json \<Rightarrow> error + string" where
  "js_toString_method v = (if nullish v then Inl TypeError else js_toString v)"

text \<open>\<^verbatim>\<open>xs.join(sep)\<close> for an array of values.\<close>

definition js_join :: "string \<Rightarrow> json list \<Rightarrow> error + string" where
  "js_join sep xs =
     ebind (sequence (map (\<lambda>x. if nullish x then Inr [] else js_toString x) xs))
       (\<lambda>ss. Inr (join sep ss))"

text \<open>A template literal: the parts converted and concatenated.\<close>

definition template :: "json list \<Rightarrow> error + string" where
  "template parts = ebind (sequence (map js_toString parts)) (\<lambda>ss. Inr (concat ss))"

text \<open>\<^verbatim>\<open>Object.values(v)\<close> and \<^verbatim>\<open>Object.keys(v)\<close>.\<close>

fun js_values :: "json \<Rightarrow> error + json list" where
  "js_values JUndefined = Inl TypeError"
| "js_values JNull = Inl TypeError"
| "js_values (JObj kvs) = Inr (map snd kvs)"
| "js_values (JArr xs) = Inr xs"
| "js_values (JStr s) = Inl Unmodelled"
| "js_values (JBool b) = Inr []"
| "js_values (JNum n) = Inr []"

fun js_keys :: "json \<Rightarrow> error + string list" where
  "js_keys JUndefined = Inl TypeError"
| "js_keys JNull = Inl TypeError"
| "js_keys (JObj kvs) = Inr (map fst kvs)"
| "js_keys (JArr xs) = Inr (map show_nat [0..<length xs])"
| "js_keys (JStr s) = Inl Unmodelled"
| "js_keys (JBool b) = Inr []"
| "js_keys (JNum n) = Inr []"

text \<open>String methods called on a value of any type: a receiver without the method
  raises a TypeError. \<^verbatim>\<open>includes\<close> is also a method of arrays.\<close>

fun js_startsWith :: "json \<Rightarrow> string \<Rightarrow> error + bool" where
  "js_startsWith (JStr s) p = Inr (prefix p s)"
| "js_startsWith v p = Inl TypeError"

fun includes_str :: "string \<Rightarrow> string \<Rightarrow> bool" where
  "includes_str p [] = (p = [])"
| "includes_str p (c # s) = (prefix p (c # s) \<or> includes_str p s)"

fun js_includes :: "json \<Rightarrow> string \<Rightarrow> error + bool" where
  "js_includes (JStr s) p = Inr (includes_str p s)"
| "js_includes (JArr xs) p = Inr (JStr p \<in> set xs)"
| "js_includes v p = Inl TypeError"

text \<open>\<^verbatim>\<open>s.split(' ')[0]\<close>: the text before the first space.\<close>

fun js_split_space_0 :: "json \<Rightarrow> error + json" where
  "js_split_space_0 (JStr s) = Inr (JStr (takeWhile (\<lambda>c. c \<noteq> CHR '' '') s))"
| "js_split_space_0 v = Inl TypeError"

text \<open>\<^verbatim>\<open>String.prototype.trim\<close>: the white space and line terminators of ECMAScript,
  in UTF-8.\<close>

definition white_space :: "string list" where
  "white_space =
     [[CHR 0x09], [CHR 0x0A], [CHR 0x0B], [CHR 0x0C], [CHR 0x0D], [CHR 0x20],
      [CHR 0xC2, CHR 0xA0], [CHR 0xE1, CHR 0x9A, CHR 0x80],
      [CHR 0xE2, CHR 0x80, CHR 0x80], [CHR 0xE2, CHR 0x80, CHR 0x81],
      [CHR 0xE2, CHR 0x80, CHR 0x82], [CHR 0xE2, CHR 0x80, CHR 0x83],
      [CHR 0xE2, CHR 0x80, CHR 0x84], [CHR 0xE2, CHR 0x80, CHR 0x85],
      [CHR 0xE2, CHR 0x80, CHR 0x86], [CHR 0xE2, CHR 0x80, CHR 0x87],
      [CHR 0xE2, CHR 0x80, CHR 0x88], [CHR 0xE2, CHR 0x80, CHR 0x89],
      [CHR 0xE2, CHR 0x80, CHR 0x8A], [CHR 0xE2, CHR 0x80, CHR 0xA8],
      [CHR 0xE2, CHR 0x80, CHR 0xA9], [CHR 0xE2, CHR 0x80, CHR 0xAF],
      [CHR 0xE2, CHR 0x81, CHR 0x9F], [CHR 0xE3, CHR 0x80, CHR 0x80],
      [CHR 0xEF, CHR 0xBB, CHR 0xBF]]"

function trimStart :: "string \<Rightarrow> string" where
  "trimStart s =
     (case find (\<lambda>w. prefix w s) white_space of
        Some w \<Rightarrow> if w = [] then s else trimStart (drop (length w) s)
      | None \<Rightarrow> s)"
  by pat_completeness auto
termination
  by (relation "measure length") (auto simp: find_Some_iff prefix_def)

declare trimStart.simps [simp del]

function trimEnd :: "string \<Rightarrow> string" where
  "trimEnd s =
     (case find (\<lambda>w. suffix w s) white_space of
        Some w \<Rightarrow> if w = [] then s else trimEnd (take (length s - length w) s)
      | None \<Rightarrow> s)"
  by pat_completeness auto
termination
  by (relation "measure length") (auto simp: find_Some_iff suffix_def)

declare trimEnd.simps [simp del]

definition trim :: "string \<Rightarrow> string" where
  "trim s = trimEnd (trimStart s)"

fun js_trim :: "json \<Rightarrow> error + json" where
  "js_trim (JStr s) = Inr (JStr (trim s))"
| "js_trim v = Inl TypeError"

section \<open>escapeString\<close>

text \<open>\<^verbatim>\<open>str.replace(/c/g, r)\<close> for a single character \<open>c\<close>: every occurrence, left to
  right. escapeString chains five of them, the backslash first.\<close>

definition replace_all :: "char \<Rightarrow> string \<Rightarrow> string \<Rightarrow> string" where
  "replace_all c r str = concat (map (\<lambda>x. if x = c then r else [x]) str)"

definition escapeString :: "string \<Rightarrow> string" where
  "escapeString str =
     replace_all (CHR 0x09) [CHR 0x5C, CHR ''t'']
       (replace_all (CHR 0x0D) [CHR 0x5C, CHR ''r'']
         (replace_all (CHR 0x0A) [CHR 0x5C, CHR ''n'']
           (replace_all (CHR 0x22) [CHR 0x5C, CHR 0x22]
             (replace_all (CHR 0x5C) [CHR 0x5C, CHR 0x5C] str))))"

text \<open>escapeString called on a value of any type: \<^verbatim>\<open>replace\<close> is a method of strings
  only.\<close>

fun js_escapeString :: "json \<Rightarrow> error + string" where
  "js_escapeString (JStr s) = Inr (escapeString s)"
| "js_escapeString v = Inl TypeError"

section \<open>decompileBlock and processInput\<close>

text \<open>Expressions the source repeats: \<^verbatim>\<open>block.fields?.NAME?.[0]\<close>,
  \<^verbatim>\<open>block.fields?.NAME?.[0] || 'default'\<close>, \<^verbatim>\<open>block.inputs?.NAME\<close> and \<^verbatim>\<open>obj[key]\<close>
  for a key of any type.\<close>

definition field0 :: "json \<Rightarrow> string \<Rightarrow> error + json" where
  "field0 block name =
     ebind (js_get block ''fields'') (\<lambda>fields.
     ebind (js_get_opt fields name) (\<lambda>field.
     js_at_opt field 0))"

definition field_or :: "json \<Rightarrow> string \<Rightarrow> string \<Rightarrow> error + json" where
  "field_or block name dflt = ebind (field0 block name) (\<lambda>v. Inr (js_or v (JStr dflt)))"

definition input_of :: "json \<Rightarrow> string \<Rightarrow> error + json" where
  "input_of block name = ebind (js_get block ''inputs'') (\<lambda>inputs. js_get_opt inputs name)"

definition lookup :: "json \<Rightarrow> json \<Rightarrow> error + json" where
  "lookup obj key = ebind (js_toString key) (\<lambda>k. js_get obj k)"

text \<open>What one pass through the \<^verbatim>\<open>switch\<close> of decompileBlock ends with: a
  \<^verbatim>\<open>return\<close> inside a case, or a \<^verbatim>\<open>break\<close> with the text accumulated in \<^verbatim>\<open>code\<close>.\<close>

datatype completion =
    Return json
  | Break string

definition line :: "json list \<Rightarrow> error + completion" where
  "line parts = ebind (template parts) (\<lambda>s. Inr (Break s))"

definition expr :: "json list \<Rightarrow> error + completion" where
  "expr parts = ebind (template parts) (\<lambda>s. Inr (Return (JStr s)))"

text \<open>In the three definitions below \<open>dec\<close> stands for the recursive call
  \<^verbatim>\<open>decompileBlock(blocks, _, _, _)\<close> and \<open>pin\<close> for \<^verbatim>\<open>processInput(blocks, _, _)\<close>.

  \<open>next_chain\<close> is
  \<^verbatim>\<open>if (block.next && blocks[block.next]) code += decompileBlock(blocks, block.next, blocks[block.next], indentation)\<close>
  and \<open>substack\<close> is the same statement for a nested body,
  \<^verbatim>\<open>if (block.inputs?.NAME && block.inputs.NAME[1] && blocks[block.inputs.NAME[1]]) code += decompileBlock(..., indentation + 1)\<close>;
  both give the text appended to \<^verbatim>\<open>code\<close>.\<close>

definition next_chain ::
  "(json \<Rightarrow> json \<Rightarrow> nat \<Rightarrow> error + json) \<Rightarrow> json \<Rightarrow> json \<Rightarrow> nat \<Rightarrow> error + string" where
  "next_chain dec blocks block indentation =
     ebind (js_get block ''next'') (\<lambda>next.
     if \<not> js_truthy next then Inr []
     else ebind (lookup blocks next) (\<lambda>b.
       if \<not> js_truthy b then Inr []
       else ebind (dec next b indentation) js_toString))"

definition substack ::
  "(json \<Rightarrow> json \<Rightarrow> nat \<Rightarrow> error + json) \<Rightarrow> json \<Rightarrow> json \<Rightarrow> string \<Rightarrow> nat \<Rightarrow> error + string" where
  "substack dec blocks block name indentation =
     ebind (input_of block name) (\<lambda>s.
     if \<not> js_truthy s then Inr []
     else ebind (js_at s 1) (\<lambda>ident.
       if \<not> js_truthy ident then Inr []
       else ebind (lookup blocks ident) (\<lambda>b.
         if \<not> js_truthy b then Inr []
         else ebind (dec ident b (indentation + 1)) js_toString)))"

definition processInputOf ::
  "(json \<Rightarrow> nat \<Rightarrow> error + json) \<Rightarrow> json \<Rightarrow> string \<Rightarrow> nat \<Rightarrow> error + json" where
  "processInputOf pin block name indentation =
     ebind (input_of block name) (\<lambda>i. pin i indentation)"

text \<open>The body of a loop or branch between its header and its closing brace.\<close>

definition braces ::
  "(json \<Rightarrow> json \<Rightarrow> nat \<Rightarrow> error + json) \<Rightarrow> json \<Rightarrow> json \<Rightarrow> nat \<Rightarrow> json list \<Rightarrow>
     error + completion" where
  "braces dec blocks block indentation header =
     ebind (template header) (\<lambda>h.
     ebind (substack dec blocks block ''SUBSTACK'' indentation) (\<lambda>body.
     Inr (Break (h @ body @ replicate (indentation * 4) CHR '' '' @ ''}\<newline>''))))"

text \<open>The \<^verbatim>\<open>switch (block.opcode)\<close> of decompileBlock, case by case in the order of
  the source. \<open>opcode = JStr ''...''\<close> is the strict equality of \<^verbatim>\<open>case\<close>.\<close>

definition decompileSwitch ::
  "(json \<Rightarrow> nat \<Rightarrow> error + json) \<Rightarrow> (json \<Rightarrow> json \<Rightarrow> nat \<Rightarrow> error + json) \<Rightarrow>
     json \<Rightarrow> json \<Rightarrow> nat \<Rightarrow> error + completion" where
  "decompileSwitch pin dec blocks block indentation =
    (let indent = JStr (replicate (indentation * 4) CHR '' '') in
    ebind (js_get block ''opcode'') (\<lambda>opcode.
    if opcode = JStr ''event_whenflagclicked'' then
      ebind (template [indent, JStr ''// When green flag clicked\<newline>'']) (\<lambda>h.
      ebind (next_chain dec blocks block indentation) (\<lambda>rest.
      Inr (Break (h @ rest))))
    else if opcode = JStr ''data_variable'' then
      ebind (field_or block ''VARIABLE'' ''my variable'') (\<lambda>varName1. Inr (Return varName1))
    else if opcode = JStr ''data_listcontents'' then
      ebind (field_or block ''LIST'' ''my list'') (\<lambda>listName1. Inr (Return listName1))
    else if opcode = JStr ''data_setvariableto'' then
      ebind (field_or block ''VARIABLE'' ''my variable'') (\<lambda>varName2.
      ebind (processInputOf pin block ''VALUE'' indentation) (\<lambda>valueCode.
      line [indent, varName2, JStr '' = '', valueCode, JStr '';\<newline>'']))
    else if opcode = JStr ''data_changevariableby'' then
      ebind (field_or block ''VARIABLE'' ''my variable'') (\<lambda>varName3.
      ebind (processInputOf pin block ''VALUE'' indentation) (\<lambda>changeValue.
      line [indent, varName3, JStr '' = '', varName3, JStr '' + '', changeValue, JStr '';\<newline>'']))
    else if opcode = JStr ''data_addtolist'' then
      ebind (field_or block ''LIST'' ''my list'') (\<lambda>listName2.
      ebind (processInputOf pin block ''ITEM'' indentation) (\<lambda>itemValue.
      line [indent, JStr ''list.addItem(\"'', listName2, JStr ''\", '', itemValue, JStr '');\<newline>'']))
    else if opcode = JStr ''data_deletealloflist'' then
      ebind (field_or block ''LIST'' ''my list'') (\<lambda>listName3.
      line [indent, JStr ''list.deleteAllOfList(\"'', listName3, JStr ''\");\<newline>''])
    else if opcode = JStr ''data_deleteoflist'' then
      ebind (field_or block ''LIST'' ''my list'') (\<lambda>listName4.
      ebind (processInputOf pin block ''INDEX'' indentation) (\<lambda>index.
      line [indent, JStr ''list.deleteItem(\"'', listName4, JStr ''\", '', index, JStr '');\<newline>'']))
    else if opcode = JStr ''data_replaceitemoflist'' then
      ebind (field_or block ''LIST'' ''my list'') (\<lambda>listName5.
      ebind (processInputOf pin block ''INDEX'' indentation) (\<lambda>index2.
      ebind (processInputOf pin block ''ITEM'' indentation) (\<lambda>newValue.
      line [indent, JStr ''list.replace(\"'', listName5, JStr ''\", '', index2, JStr '', '', newValue,
            JStr '');\<newline>''])))
    else if opcode = JStr ''data_itemoflist'' then
      ebind (field_or block ''LIST'' ''my list'') (\<lambda>listName6.
      ebind (processInputOf pin block ''INDEX'' indentation) (\<lambda>index3.
      expr [JStr ''list.getItem(\"'', listName6, JStr ''\", '', index3, JStr '')'']))
    else if opcode = JStr ''data_lengthoflist'' then
      ebind (field_or block ''LIST'' ''my list'') (\<lambda>listName7.
      expr [JStr ''list.length(\"'', listName7, JStr ''\")''])
    else if opcode = JStr ''control_repeat'' then
      ebind (field_or block ''TIMES'' ''10'') (\<lambda>repeatTimes.
      braces dec blocks block indentation
        [indent, JStr ''for (let i = 0; i < '', repeatTimes, JStr ''; i++) {\<newline>''])
    else if opcode = JStr ''control_repeat_until'' then
      ebind (processInputOf pin block ''CONDITION'' indentation) (\<lambda>condition.
      braces dec blocks block indentation
        [indent, JStr ''while ('', condition, JStr '') {\<newline>''])
    else if opcode = JStr ''control_if'' then
      ebind (processInputOf pin block ''CONDITION'' indentation) (\<lambda>ifCondition.
      braces dec blocks block indentation
        [indent, JStr ''if ('', ifCondition, JStr '') {\<newline>''])
    else if opcode = JStr ''control_if_else'' then
      ebind (processInputOf pin block ''CONDITION'' indentation) (\<lambda>ifElseCondition.
      ebind (template [indent, JStr ''if ('', ifElseCondition, JStr '') {\<newline>'']) (\<lambda>h.
      ebind (substack dec blocks block ''SUBSTACK'' indentation) (\<lambda>body.
      ebind (template [indent, JStr ''} else {\<newline>'']) (\<lambda>e.
      ebind (substack dec blocks block ''SUBSTACK2'' indentation) (\<lambda>body2.
      ebind (template [indent, JStr ''}\<newline>'']) (\<lambda>c.
      Inr (Break (h @ body @ e @ body2 @ c))))))))
    else if opcode = JStr ''looks_say'' then
      ebind (field_or block ''MESSAGE'' []) (\<lambda>x.
      ebind (js_escapeString x) (\<lambda>e.
      line [indent, JStr ''looks.say(\"'', JStr e, JStr ''\");\<newline>'']))
    else if opcode = JStr ''operator_equals'' then
      ebind (processInputOf pin block ''OPERAND1'' indentation) (\<lambda>a.
      ebind (processInputOf pin block ''OPERAND2'' indentation) (\<lambda>b.
      expr [a, JStr '' == '', b]))
    else if opcode = JStr ''operator_greaterthan'' \<or> opcode = JStr ''operator_gt'' then
      ebind (processInputOf pin block ''OPERAND1'' indentation) (\<lambda>a.
      ebind (processInputOf pin block ''OPERAND2'' indentation) (\<lambda>b.
      expr [a, JStr '' > '', b]))
    else if opcode = JStr ''operator_lessthan'' \<or> opcode = JStr ''operator_lt'' then
      ebind (processInputOf pin block ''OPERAND1'' indentation) (\<lambda>a.
      ebind (processInputOf pin block ''OPERAND2'' indentation) (\<lambda>b.
      expr [a, JStr '' < '', b]))
    else if opcode = JStr ''operator_not'' then
      ebind (processInputOf pin block ''OPERAND'' indentation) (\<lambda>opNot.
      expr [JStr ''!('', opNot, JStr '')''])
    else if opcode = JStr ''operator_add'' then
      ebind (processInputOf pin block ''OPERAND1'' indentation) (\<lambda>a.
      ebind (processInputOf pin block ''OPERAND2'' indentation) (\<lambda>b.
      expr [a, JStr '' + '', b]))
    else if opcode = JStr ''operator_subtract'' then
      ebind (processInputOf pin block ''OPERAND1'' indentation) (\<lambda>a.
      ebind (processInputOf pin block ''OPERAND2'' indentation) (\<lambda>b.
      expr [a, JStr '' - '', b]))
    else if opcode = JStr ''operator_multiply'' then
      ebind (processInputOf pin block ''OPERAND1'' indentation) (\<lambda>a.
      ebind (processInputOf pin block ''OPERAND2'' indentation) (\<lambda>b.
      expr [a, JStr '' * '', b]))
    else if opcode = JStr ''operator_divide'' then
      ebind (processInputOf pin block ''OPERAND1'' indentation) (\<lambda>a.
      ebind (processInputOf pin block ''OPERAND2'' indentation) (\<lambda>b.
      expr [a, JStr '' / '', b]))
    else if opcode = JStr ''operator_join'' then
      ebind (processInputOf pin block ''STRING1'' indentation) (\<lambda>op15.
      ebind (processInputOf pin block ''STRING2'' indentation) (\<lambda>op16.
      expr [JStr ''operation.join('', op15, JStr '', '', op16, JStr '')'']))
    else if opcode = JStr ''procedures_definition'' then
      ebind (field_or block ''custom_block'' ''customBlock'') (\<lambda>procCode.
      ebind (js_split_space_0 procCode) (\<lambda>procName.
      ebind (js_get block ''mutation'') (\<lambda>mutation.
      ebind (js_get_opt mutation ''inputids'') (\<lambda>inputids.
      ebind (if js_truthy inputids then
               (case inputids of
                  JArr ids \<Rightarrow>
                    sequence (map (\<lambda>index.
                      ebind (js_get mutation ''paramnames'') (\<lambda>paramnames.
                      if js_truthy paramnames then js_at paramnames index
                      else Inr (JStr (''param'' @ show_nat (index + 1)))))
                      [0..<length ids])
                | _ \<Rightarrow> Inl TypeError)
             else Inr []) (\<lambda>paramNames.
      ebind (js_join '', '' paramNames) (\<lambda>params.
      ebind (template [indent, JStr ''function '', procName, JStr ''('', JStr params, JStr '') {\<newline>''])
        (\<lambda>h.
      ebind (substack dec blocks block ''custom_block_substack'' indentation) (\<lambda>body.
      ebind (template [indent, JStr ''}\<newline>'']) (\<lambda>c.
      Inr (Break (h @ body @ c)))))))))))
    else if opcode = JStr ''procedures_call'' then
      ebind (js_get block ''mutation'') (\<lambda>mutation.
      ebind (js_get_opt mutation ''proccode'') (\<lambda>proccode.
      ebind (if nullish proccode then Inr JUndefined else js_split_space_0 proccode) (\<lambda>name.
      ebind (js_get block ''inputs'') (\<lambda>inputs.
      ebind (if js_truthy inputs then
               ebind (js_get_opt mutation ''inputids'') (\<lambda>inputids.
               (case js_or inputids (JArr []) of
                  JArr inputIds \<Rightarrow>
                    ebind (sequence (map (\<lambda>ident.
                      ebind (lookup inputs ident) (\<lambda>i.
                      if js_truthy i then ebind (pin i indentation) (\<lambda>argValue. Inr [argValue])
                      else Inr [])) inputIds)) (\<lambda>pushed. Inr (concat pushed))
                | _ \<Rightarrow> Inl TypeError))
             else Inr []) (\<lambda>args.
      ebind (js_join '', '' args) (\<lambda>arguments.
      line [indent, js_or name (JStr ''customBlock''), JStr ''('', JStr arguments, JStr '');\<newline>'']))))))
    else if opcode = JStr ''motion_movesteps'' then
      ebind (field_or block ''STEPS'' ''10'') (\<lambda>steps.
      line [indent, JStr ''motion.moveSteps('', steps, JStr '');\<newline>''])
    else if opcode = JStr ''motion_turnright'' then
      ebind (field_or block ''DEGREES'' ''15'') (\<lambda>degrees.
      line [indent, JStr ''motion.turnRight('', degrees, JStr '');\<newline>''])
    else if opcode = JStr ''motion_turnleft'' then
      ebind (field_or block ''DEGREES'' ''15'') (\<lambda>degrees2.
      line [indent, JStr ''motion.turnLeft('', degrees2, JStr '');\<newline>''])
    else if opcode = JStr ''motion_gotoxy'' then
      ebind (processInputOf pin block ''X'' indentation) (\<lambda>a1.
      ebind (processInputOf pin block ''Y'' indentation) (\<lambda>a2.
      line [indent, JStr ''motion.goTo('', a1, JStr '', '', a2, JStr '');\<newline>'']))
    else if opcode = JStr ''motion_changexby'' then
      ebind (processInputOf pin block ''DX'' indentation) (\<lambda>a1.
      line [indent, JStr ''motion.changeX('', a1, JStr '');\<newline>''])
    else if opcode = JStr ''motion_changeyby'' then
      ebind (processInputOf pin block ''DY'' indentation) (\<lambda>a1.
      line [indent, JStr ''motion.changeY('', a1, JStr '');\<newline>''])
    else if opcode = JStr ''motion_pointindirection'' then
      ebind (processInputOf pin block ''DIRECTION'' indentation) (\<lambda>a1.
      line [indent, JStr ''motion.pointInDirection('', a1, JStr '');\<newline>''])
    else if opcode = JStr ''motion_glidesecstoxy'' then
      ebind (processInputOf pin block ''SECONDS'' indentation) (\<lambda>a1.
      ebind (processInputOf pin block ''X'' indentation) (\<lambda>a2.
      ebind (processInputOf pin block ''Y'' indentation) (\<lambda>a3.
      line [indent, JStr ''motion.glideTo('', a1, JStr '', '', a2, JStr '', '', a3, JStr '');\<newline>''])))
    else if opcode = JStr ''looks_sayforsecs'' then
      ebind (field_or block ''MESSAGE'' []) (\<lambda>messageSecs.
      ebind (processInputOf pin block ''SECONDS'' indentation) (\<lambda>saySeconds.
      ebind (js_escapeString messageSecs) (\<lambda>e.
      line [indent, JStr ''looks.sayForSeconds(\"'', JStr e, JStr ''\", '', saySeconds, JStr '');\<newline>''])))
    else if opcode = JStr ''looks_think'' then
      ebind (field_or block ''MESSAGE'' []) (\<lambda>x.
      ebind (js_escapeString x) (\<lambda>e.
      line [indent, JStr ''looks.think(\"'', JStr e, JStr ''\");\<newline>'']))
    else if opcode = JStr ''looks_thinkforsecs'' then
      ebind (field_or block ''MESSAGE'' []) (\<lambda>thinkMessageSecs.
      ebind (processInputOf pin block ''SECONDS'' indentation) (\<lambda>thinkSeconds.
      ebind (js_escapeString thinkMessageSecs) (\<lambda>e.
      line [indent, JStr ''looks.thinkForSeconds(\"'', JStr e, JStr ''\", '', thinkSeconds,
            JStr '');\<newline>''])))
    else if opcode = JStr ''looks_show'' then line [indent, JStr ''looks.show();\<newline>'']
    else if opcode = JStr ''looks_hide'' then line [indent, JStr ''looks.hide();\<newline>'']
    else if opcode = JStr ''looks_switchcostumeto'' then
      ebind (field_or block ''COSTUME'' []) (\<lambda>x.
      ebind (js_escapeString x) (\<lambda>e.
      line [indent, JStr ''looks.switchCostumeTo(\"'', JStr e, JStr ''\");\<newline>'']))
    else if opcode = JStr ''looks_nextcostume'' then line [indent, JStr ''looks.nextCostume();\<newline>'']
    else if opcode = JStr ''looks_setsizeto'' then
      ebind (processInputOf pin block ''SIZE'' indentation) (\<lambda>a1.
      line [indent, JStr ''looks.setSizeTo('', a1, JStr '');\<newline>''])
    else if opcode = JStr ''looks_changesizoby'' then
      ebind (processInputOf pin block ''SIZE'' indentation) (\<lambda>a1.
      line [indent, JStr ''looks.changeSizeBy('', a1, JStr '');\<newline>''])
    else if opcode = JStr ''sound_play'' then
      ebind (field_or block ''SOUND_MENU'' []) (\<lambda>x.
      ebind (js_escapeString x) (\<lambda>e.
      line [indent, JStr ''sound.playSound(\"'', JStr e, JStr ''\");\<newline>'']))
    else if opcode = JStr ''sound_playuntildone'' then
      ebind (field_or block ''SOUND_MENU'' []) (\<lambda>x.
      ebind (js_escapeString x) (\<lambda>e.
      line [indent, JStr ''sound.playSoundUntilDone(\"'', JStr e, JStr ''\");\<newline>'']))
    else if opcode = JStr ''sound_stopallsounds'' then line [indent, JStr ''sound.stopAllSounds();\<newline>'']
    else if opcode = JStr ''sound_changevolumeby'' then
      ebind (processInputOf pin block ''VOLUME'' indentation) (\<lambda>a1.
      line [indent, JStr ''sound.changeVolumeBy('', a1, JStr '');\<newline>''])
    else if opcode = JStr ''sound_setvolumeto'' then
      ebind (processInputOf pin block ''VOLUME'' indentation) (\<lambda>a1.
      line [indent, JStr ''sound.setVolumeTo('', a1, JStr '');\<newline>''])
    else if opcode = JStr ''sensing_touchingobject'' then
      ebind (field_or block ''TOUCHINGOBJECT'' []) (\<lambda>touchObject.
      ebind (js_escapeString touchObject) (\<lambda>e.
      expr [JStr ''sensing.isTouching(\"'', JStr e, JStr ''\")'']))
    else if opcode = JStr ''sensing_mousedown'' then expr [JStr ''sensing.mouseDown()'']
    else if opcode = JStr ''sensing_mousex'' then expr [JStr ''sensing.mouseX()'']
    else if opcode = JStr ''sensing_mousey'' then expr [JStr ''sensing.mouseY()'']
    else if opcode = JStr ''sensing_keyoptions'' then
      ebind (field_or block ''KEY_OPTION'' []) (\<lambda>key.
      ebind (js_escapeString key) (\<lambda>e.
      expr [JStr ''sensing.keyPressed(\"'', JStr e, JStr ''\")'']))
    else if opcode = JStr ''control_wait'' then
      ebind (processInputOf pin block ''DURATION'' indentation) (\<lambda>a1.
      line [indent, JStr ''control.wait('', a1, JStr '');\<newline>''])
    else if opcode = JStr ''control_stop'' then
      ebind (field_or block ''STOP_OPTION'' []) (\<lambda>x.
      ebind (js_escapeString x) (\<lambda>e.
      line [indent, JStr ''control.stop(\"'', JStr e, JStr ''\");\<newline>'']))
    else
      ebind (js_includes opcode ''motion_'') (\<lambda>motion.
      if motion then line [indent, JStr ''// Motion block: '', opcode, JStr ''\<newline>'']
      else ebind (js_includes opcode ''looks_'') (\<lambda>looks.
      if looks then line [indent, JStr ''// Looks block: '', opcode, JStr ''\<newline>'']
      else ebind (js_includes opcode ''sound_'') (\<lambda>sound.
      if sound then line [indent, JStr ''// Sound block: '', opcode, JStr ''\<newline>'']
      else ebind (js_includes opcode ''sensing_'') (\<lambda>sensing.
      if sensing then line [indent, JStr ''// Sensing block: '', opcode, JStr ''\<newline>'']
      else line [indent, JStr ''// Unsupported block: '', opcode, JStr ''\<newline>'']))))))"

text \<open>decompileBlock and processInput call each other, and on a cyclic graph without
  end. The first argument after \<open>toNumber\<close> is the depth of decompileBlock calls the call
  stack still has room for; the engine raises a RangeError when it is used up.
  \<^verbatim>\<open>blockId\<close> is passed on as the source does; no branch reads it.\<close>

fun decompileBlock ::
    "(string \<Rightarrow> string) \<Rightarrow> nat \<Rightarrow> json \<Rightarrow> json \<Rightarrow> json \<Rightarrow> nat \<Rightarrow> error + json"
  and processInput ::
    "(string \<Rightarrow> string) \<Rightarrow> nat \<Rightarrow> json \<Rightarrow> json \<Rightarrow> nat \<Rightarrow> error + json" where
  "decompileBlock toNumber 0 blocks blockId block indentation = Inl RangeError"
| "decompileBlock toNumber (Suc depth) blocks blockId block indentation =
     ebind (decompileSwitch
              (\<lambda>i k. processInput toNumber depth blocks i k)
              (\<lambda>b c k. decompileBlock toNumber depth blocks b c k)
              blocks block indentation) (\<lambda>done.
     case done of
       Return v \<Rightarrow> Inr v
     | Break code \<Rightarrow>
         ebind (next_chain (\<lambda>b c k. decompileBlock toNumber depth blocks b c k)
                  blocks block indentation) (\<lambda>rest.
         Inr (JStr (code @ rest))))"
| "processInput toNumber depth blocks input indentation =
     (if \<not> js_truthy input \<or> \<not> isArray input \<or> (case input of JArr xs \<Rightarrow> length xs < 2 | _ \<Rightarrow> True)
      then Inr (JStr ''null'')
      else
        ebind (js_at input 1) (\<lambda>inputData.
        if isString inputData then
          ebind (lookup blocks inputData) (\<lambda>referencedBlock.
          if js_truthy referencedBlock then
            ebind (js_get referencedBlock ''opcode'') (\<lambda>opcode.
            ebind (js_startsWith opcode ''operator_'') (\<lambda>c1.
            ebind (js_startsWith opcode ''data_itemoflist'') (\<lambda>c2.
            ebind (js_startsWith opcode ''data_lengthoflist'') (\<lambda>c3.
            ebind (js_startsWith opcode ''sensing_'') (\<lambda>c4.
            if c1 \<or> c2 \<or> c3 \<or> c4 \<or> opcode = JStr ''data_variable''
               \<or> opcode = JStr ''data_listcontents''
            then
              ebind (decompileBlock toNumber depth blocks inputData referencedBlock indentation)
                (\<lambda>result. Inr (if result \<noteq> JNull then result else JStr ''null''))
            else
              ebind (decompileBlock toNumber depth blocks inputData referencedBlock indentation)
                js_trim)))))
          else Inr (JStr ''null''))
        else if (case inputData of JArr ys \<Rightarrow> length ys \<ge> 2 | _ \<Rightarrow> False) then
          ebind (js_at inputData 1) (\<lambda>v.
          case v of
            JStr s \<Rightarrow>
              (let numValue = toNumber s in
               if numValue \<noteq> ''NaN'' \<and> trim s \<noteq> [] then Inr (JStr numValue)
               else if s = ''i'' \<or> s = ''j'' \<or> s = ''k'' \<or> s = ''len'' \<or> s = ''current''
                       \<or> s = ''next'' \<or> s = ''result'' \<or> s = ''separator''
               then Inr (JStr s)
               else Inr (JStr (''\"'' @ escapeString s @ ''\"'')))
          | _ \<Rightarrow>
              if v \<noteq> JUndefined then ebind (js_toString_method v) (\<lambda>s. Inr (JStr s))
              else Inr (JStr ''null''))
        else Inr (JStr ''null'')))"

declare decompileBlock.simps [simp del] processInput.simps [simp del]

section \<open>findTopLevelBlocks\<close>

text \<open>\<^verbatim>\<open>xs.forEach(f)\<close> where the callback updates the variables it closes over: the state is
  passed through, and an exception ends the loop.\<close>

fun forEach :: "('a \<Rightarrow> 's \<Rightarrow> error + 's) \<Rightarrow> 'a list \<Rightarrow> 's \<Rightarrow> error + 's" where
  "forEach f [] s = Inr s"
| "forEach f (x # xs) s = ebind (f x s) (forEach f xs)"

text \<open>The first loop adds to \<^verbatim>\<open>childBlocks\<close> the second element of every input that is
  an array of at least two elements with a string there, and \<^verbatim>\<open>block.next\<close> when it is
  truthy. The set is only asked \<^verbatim>\<open>has(blockId)\<close>, so it is kept as the list of the values
  added.\<close>

definition inputChild :: "json \<Rightarrow> json list" where
  "inputChild input =
     (case input of
        JArr xs \<Rightarrow> if length xs \<ge> 2 \<and> isString (xs ! 1) then [xs ! 1] else []
      | _ \<Rightarrow> [])"

definition markChildren :: "json \<Rightarrow> string \<Rightarrow> json list \<Rightarrow> error + json list" where
  "markChildren blocks blockId childBlocks =
     ebind (js_get blocks blockId) (\<lambda>block.
     ebind (js_get block ''inputs'') (\<lambda>inputs.
     ebind (if js_truthy inputs
            then ebind (js_values inputs) (\<lambda>vs. Inr (childBlocks @ concat (map inputChild vs)))
            else Inr childBlocks) (\<lambda>childBlocks1.
     ebind (js_get block ''next'') (\<lambda>next.
     Inr (if js_truthy next then childBlocks1 @ [next] else childBlocks1)))))"

definition forceEvent :: "json \<Rightarrow> string \<Rightarrow> string list \<Rightarrow> error + string list" where
  "forceEvent blocks blockId topLevelBlockIds =
     ebind (js_get blocks blockId) (\<lambda>block.
     ebind (js_get block ''opcode'') (\<lambda>opcode.
     ebind (js_startsWith opcode ''event_'') (\<lambda>event.
     Inr (if event \<and> blockId \<notin> set topLevelBlockIds then topLevelBlockIds @ [blockId]
          else topLevelBlockIds))))"

definition findTopLevelBlocks :: "json \<Rightarrow> error + string list" where
  "findTopLevelBlocks blocks =
     ebind (js_keys blocks) (\<lambda>allBlockIds.
     ebind (forEach (markChildren blocks) allBlockIds []) (\<lambda>childBlocks.
     forEach (forceEvent blocks) allBlockIds
       (filter (\<lambda>blockId. JStr blockId \<notin> set childBlocks) allBlockIds)))"

section \<open>generateJavaScriptFromBlocks\<close>

text \<open>The four collections the function fills before it prints the declarations. A
  \<^verbatim>\<open>Set\<close> keeps the first insertion of a value; two arrays or objects of the project are
  never the same value. \<^verbatim>\<open>obj[key] = v\<close> converts the key to a string; the key
  \<^verbatim>\<open>__proto__\<close> would replace the prototype instead of storing a property.\<close>

record decls =
  foundVariables :: "json list"
  foundLists :: "json list"
  variableInitialValues :: "(string \<times> json) list"
  listInitialValues :: "(string \<times> json) list"

definition set_add :: "json list \<Rightarrow> json \<Rightarrow> json list" where
  "set_add xs v =
     (if isObjectType v \<and> v \<noteq> JNull then xs @ [v]
      else if v \<in> set xs then xs else xs @ [v])"

definition js_set :: "(string \<times> json) list \<Rightarrow> json \<Rightarrow> json \<Rightarrow> error + (string \<times> json) list" where
  "js_set obj key v =
     ebind (js_toString key) (\<lambda>k.
     if k = ''__proto__'' then Inl Unmodelled else Inr (AList.update k v obj))"

definition js_in :: "json \<Rightarrow> (string \<times> json) list \<Rightarrow> error + bool" where
  "js_in key obj =
     ebind (js_toString key) (\<lambda>k. Inr (k \<in> fst ` set obj \<or> k \<in> set Object_prototype))"

text \<open>The cloud marker, U+2601.\<close>

definition cloud :: string where
  "cloud = [CHR 0xE2, CHR 0x98, CHR 0x81]"

definition addVariable :: "json \<Rightarrow> decls \<Rightarrow> error + decls" where
  "addVariable variable d =
     (if isArray variable then
        ebind (js_at variable 0) (\<lambda>name.
        if js_truthy name \<and> name \<noteq> JStr cloud then
          ebind (js_at variable 1) (\<lambda>v.
          ebind (js_set (variableInitialValues d) name (if v \<noteq> JUndefined then v else JStr []))
            (\<lambda>values.
          Inr (d\<lparr>foundVariables := set_add (foundVariables d) name,
                   variableInitialValues := values\<rparr>)))
        else Inr d)
      else Inr d)"

definition addList :: "json \<Rightarrow> decls \<Rightarrow> error + decls" where
  "addList list d =
     (if isArray list then
        ebind (js_at list 0) (\<lambda>name.
        if js_truthy name then
          ebind (js_at list 1) (\<lambda>v.
          ebind (js_set (listInitialValues d) name (js_or v (JArr []))) (\<lambda>values.
          Inr (d\<lparr>foundLists := set_add (foundLists d) name, listInitialValues := values\<rparr>)))
        else Inr d)
      else Inr d)"

text \<open>The loop over \<^verbatim>\<open>Object.values(blocks)\<close>.\<close>

definition scanBlock :: "json \<Rightarrow> decls \<Rightarrow> error + decls" where
  "scanBlock block d =
     ebind (js_get block ''opcode'') (\<lambda>opcode.
     if opcode = JStr ''data_setvariableto'' \<or> opcode = JStr ''data_changevariableby'' then
       ebind (field0 block ''VARIABLE'') (\<lambda>name.
       if js_truthy name \<and> name \<noteq> JStr cloud then
         ebind (js_in name (variableInitialValues d)) (\<lambda>present.
         ebind (if present then Inr (variableInitialValues d)
                else js_set (variableInitialValues d) name (JStr [])) (\<lambda>values.
         Inr (d\<lparr>foundVariables := set_add (foundVariables d) name,
                  variableInitialValues := values\<rparr>)))
       else Inr d)
     else
       ebind (js_startsWith opcode ''data_'') (\<lambda>data.
       if \<not> data then Inr d
       else
         ebind (field0 block ''LIST'') (\<lambda>name.
         if js_truthy name then
           ebind (js_in name (listInitialValues d)) (\<lambda>present.
           ebind (if present then Inr (listInitialValues d)
                  else js_set (listInitialValues d) name (JArr [])) (\<lambda>values.
           Inr (d\<lparr>foundLists := set_add (foundLists d) name, listInitialValues := values\<rparr>)))
         else Inr d)))"

text \<open>The eight assignments after the scan.\<close>

definition knownVariables :: "(string \<times> json) list \<Rightarrow> (string \<times> json) list" where
  "knownVariables values =
     AList.update ''next'' (JStr [])
       (AList.update ''current'' (JStr [])
         (AList.update ''separator'' (JStr [])
           (AList.update ''result'' (JStr [])
             (AList.update ''k'' (JNum ''1'')
               (AList.update ''j'' (JNum ''1'')
                 (AList.update ''i'' (JNum ''1'')
                   (AList.update ''len'' (JNum ''0'') values)))))))"

text \<open>\<^verbatim>\<open>typeof x === 'string' ? `"${escapeString(x)}"` : x\<close>.\<close>

definition quoted :: "json \<Rightarrow> json" where
  "quoted x = (case x of JStr s \<Rightarrow> JStr (''\"'' @ escapeString s @ ''\"'') | _ \<Rightarrow> x)"

definition declareVariable :: "(string \<times> json) list \<Rightarrow> json \<Rightarrow> string \<Rightarrow> error + string" where
  "declareVariable values varName code =
     ebind (lookup (JObj values) varName) (\<lambda>v.
     ebind (template [JStr ''let '', varName, JStr '' = '', quoted v, JStr '';\<newline>'']) (\<lambda>l.
     Inr (code @ l)))"

text \<open>\<^verbatim>\<open>v.length > 0\<close> for a truthy \<open>v\<close>.\<close>

fun length_positive :: "json \<Rightarrow> error + bool" where
  "length_positive (JArr xs) = Inr (xs \<noteq> [])"
| "length_positive (JStr s) = Inr (s \<noteq> [])"
| "length_positive (JObj kvs) =
     (case map_of kvs ''length'' of None \<Rightarrow> Inr False | Some l \<Rightarrow> Inl Unmodelled)"
| "length_positive v = Inr False"

definition declareList :: "(string \<times> json) list \<Rightarrow> json \<Rightarrow> string \<Rightarrow> error + string" where
  "declareList values listName code =
     (if listName = JStr ''numbers'' then
        Inr (code @ ''list.newList(\"numbers\", [1, 2, 3, 4, 5, 6, 7, 8, 9, 10], false);\<newline>'')
      else
        ebind (lookup (JObj values) listName) (\<lambda>v.
        ebind (if js_truthy v then length_positive v else Inr False) (\<lambda>filled.
        if filled then
          (case v of
             JArr xs \<Rightarrow>
               ebind (js_join '', '' (map quoted xs)) (\<lambda>items.
               ebind (template [JStr ''list.newList(\"'', listName, JStr ''\", ['', JStr items,
                                JStr ''], false);\<newline>'']) (\<lambda>l.
               Inr (code @ l)))
           | _ \<Rightarrow> Inl TypeError)
        else
          ebind (template [JStr ''list.createList(\"'', listName, JStr ''\");\<newline>'']) (\<lambda>l.
          Inr (code @ l)))))"

text \<open>The declarations collected from \<^verbatim>\<open>variables\<close>, \<^verbatim>\<open>lists\<close> and the blocks, up
  to the eight assignments: lines 174 to 245 of the source.\<close>

definition collectDeclarations :: "json \<Rightarrow> json \<Rightarrow> json \<Rightarrow> error + decls" where
  "collectDeclarations blocks variables lists' =
     ebind (if js_truthy variables \<and> isObjectType variables then
              (case variables of
                 JArr vs \<Rightarrow> forEach addVariable vs
               | _ \<Rightarrow> (\<lambda>d. ebind (js_values variables) (\<lambda>vs. forEach addVariable vs d)))
                \<lparr>foundVariables = [], foundLists = [], variableInitialValues = [],
                 listInitialValues = []\<rparr>
            else Inr \<lparr>foundVariables = [], foundLists = [], variableInitialValues = [],
                      listInitialValues = []\<rparr>) (\<lambda>d1.
     ebind (if js_truthy lists' \<and> isObjectType lists' then
              (case lists' of
                 JArr ls \<Rightarrow> forEach addList ls d1
               | _ \<Rightarrow> ebind (js_values lists') (\<lambda>ls. forEach addList ls d1))
            else Inr d1) (\<lambda>d2.
     ebind (js_values blocks) (\<lambda>bs.
     ebind (forEach scanBlock bs d2) (\<lambda>d3.
     Inr (d3\<lparr>variableInitialValues := knownVariables (variableInitialValues d3)\<rparr>)))))"

definition generateJavaScriptFromBlocks ::
  "(string \<Rightarrow> string) \<Rightarrow> nat \<Rightarrow> json \<Rightarrow> json \<Rightarrow> json \<Rightarrow> error + string" where
  "generateJavaScriptFromBlocks toNumber depth blocks variables lists' =
     ebind (collectDeclarations blocks variables lists') (\<lambda>d.
     ebind (if foundVariables d \<noteq> [] then
              ebind (forEach (declareVariable (variableInitialValues d)) (foundVariables d)
                       ''// Decompiled from Scratch project\<newline>\<newline>'')
                (\<lambda>code. Inr (code @ ''\<newline>''))
            else Inr ''// Decompiled from Scratch project\<newline>\<newline>'') (\<lambda>code1.
     ebind (if foundLists d \<noteq> [] then
              ebind (forEach (declareList (listInitialValues d)) (foundLists d) code1)
                (\<lambda>code. Inr (code @ ''\<newline>''))
            else Inr code1) (\<lambda>code2.
     ebind (findTopLevelBlocks blocks) (\<lambda>topLevelBlocks.
     if topLevelBlocks \<noteq> [] then
       forEach (\<lambda>blockId code.
           ebind (js_get blocks blockId) (\<lambda>block.
           ebind (decompileBlock toNumber depth blocks (JStr blockId) block 0) (\<lambda>r.
           ebind (js_toString r) (\<lambda>text. Inr (code @ text @ ''\<newline>'')))))
         topLevelBlocks (code2 @ ''// Main code\<newline>'')
     else Inr (code2 @ ''// No blocks found\<newline>'')))))"

section \<open>createjvavscratchProject\<close>

text \<open>The part of createjvavscratchProject that generates code: from the parsed
  \<^verbatim>\<open>project.json\<close> to the last \<^verbatim>\<open>writeFileSync\<close> of an actor's code. The result is the
  list of the files written, in order, each as the actor's name and its code, and the
  exception that ended the function, if one did. The directories, the configuration
  file, the project definition and the assets are left out, and the file system is
  taken to accept every write.

  \<open>stageData projectJson name\<close> is
  \<^verbatim>\<open>projectJson.stage?.NAME || projectJson.targets?.find((t) => t.isStage)?.NAME || {}\<close>.\<close>

fun find_isStage :: "json list \<Rightarrow> error + json" where
  "find_isStage [] = Inr JUndefined"
| "find_isStage (t # ts) =
     ebind (js_get t ''isStage'') (\<lambda>isStage. if js_truthy isStage then Inr t else find_isStage ts)"

definition stageData :: "json \<Rightarrow> string \<Rightarrow> error + json" where
  "stageData projectJson name =
     ebind (js_get projectJson ''stage'') (\<lambda>stage.
     ebind (js_get_opt stage name) (\<lambda>own.
     if js_truthy own then Inr own
     else
       ebind (js_get projectJson ''targets'') (\<lambda>targets.
       ebind (if nullish targets then Inr JUndefined
              else (case targets of JArr ts \<Rightarrow> find_isStage ts | _ \<Rightarrow> Inl TypeError)) (\<lambda>t.
       ebind (js_get_opt t name) (\<lambda>found.
       Inr (js_or found (JObj [])))))))"

text \<open>The loop \<^verbatim>\<open>for (const sprite of targets)\<close>. \<^verbatim>\<open>path.join\<close> raises a TypeError for a
  name that is not a string. Nothing in the loop catches an exception.\<close>

fun spriteLoop ::
  "(string \<Rightarrow> string) \<Rightarrow> nat \<Rightarrow> json list \<Rightarrow> (string \<times> string) list \<Rightarrow>
     (string \<times> string) list \<times> error option" where
  "spriteLoop toNumber depth [] files = (files, None)"
| "spriteLoop toNumber depth (sprite # rest) files =
     (case js_get sprite ''isStage'' of
        Inl e \<Rightarrow> (files, Some e)
      | Inr isStage \<Rightarrow>
          if js_truthy isStage then spriteLoop toNumber depth rest files
          else
            (case ebind (js_get sprite ''name'') (\<lambda>spriteName.
                  ebind (case spriteName of JStr s \<Rightarrow> Inr s | _ \<Rightarrow> Inl TypeError) (\<lambda>name.
                  ebind (js_get sprite ''blocks'') (\<lambda>b.
                  ebind (js_get sprite ''variables'') (\<lambda>v.
                  ebind (js_get sprite ''lists'') (\<lambda>l.
                  ebind (generateJavaScriptFromBlocks toNumber depth
                           (js_or b (JObj [])) (js_or v (JObj [])) (js_or l (JObj [])))
                    (\<lambda>spriteCode.
                  Inr (name, spriteCode))))))) of
               Inl e \<Rightarrow> (files, Some e)
             | Inr file \<Rightarrow> spriteLoop toNumber depth rest (files @ [file])))"

definition createjvavscratchProject ::
  "(string \<Rightarrow> string) \<Rightarrow> nat \<Rightarrow> json \<Rightarrow> (string \<times> string) list \<times> error option" where
  "createjvavscratchProject toNumber depth projectJson =
     (case ebind (stageData projectJson ''blocks'') (\<lambda>stageBlocks.
           ebind (stageData projectJson ''variables'') (\<lambda>stageVariables.
           ebind (stageData projectJson ''lists'') (\<lambda>stageLists.
           ebind (stageData projectJson ''broadcasts'') (\<lambda>stageBroadcasts.
           generateJavaScriptFromBlocks toNumber depth stageBlocks stageVariables stageLists)))) of
        Inl e \<Rightarrow> ([], Some e)
      | Inr stageCode \<Rightarrow>
          (case js_get projectJson ''targets'' of
             Inl e \<Rightarrow> ([(''Stage'', stageCode)], Some e)
           | Inr targets \<Rightarrow>
               spriteLoop toNumber depth (case targets of JArr ts \<Rightarrow> ts | _ \<Rightarrow> [])
                 [(''Stage'', stageCode)]))"

section \<open>Reference definitions\<close>

text \<open>The definitions of this section are not translated from the source: they say what
  the properties below compare the source with.

  Reading an escaped text back under the usual rules: a backslash followed by a
  backslash, a double quote, \<open>n\<close>, \<open>r\<close> or \<open>t\<close> stands for one character; any other use of
  a backslash is not an escape. \<open>literal_body\<close> holds of a text in which every double
  quote, line feed, carriage return and tab is written as an escape. \<open>read_literal\<close>
  reads a whole literal: the opening quote, the body up to the first quote that is not
  escaped, and nothing after it.\<close>

fun decode_escape :: "char \<Rightarrow> char option" where
  "decode_escape c =
     (if c = CHR 0x5C then Some (CHR 0x5C)
      else if c = CHR 0x22 then Some (CHR 0x22)
      else if c = CHR ''n'' then Some (CHR 0x0A)
      else if c = CHR ''r'' then Some (CHR 0x0D)
      else if c = CHR ''t'' then Some (CHR 0x09)
      else None)"

fun unescape :: "string \<Rightarrow> string option" where
  "unescape [] = Some []"
| "unescape (c # s) =
     (if c = CHR 0x5C then
        (case s of
           [] \<Rightarrow> None
         | d # s' \<Rightarrow>
             (case decode_escape d of
                None \<Rightarrow> None
              | Some x \<Rightarrow> map_option ((#) x) (unescape s')))
      else map_option ((#) c) (unescape s))"

fun literal_body :: "string \<Rightarrow> bool" where
  "literal_body [] = True"
| "literal_body (c # s) =
     (if c = CHR 0x5C then (case s of [] \<Rightarrow> False | d # s' \<Rightarrow> literal_body s')
      else c \<noteq> CHR 0x22 \<and> c \<noteq> CHR 0x0A \<and> c \<noteq> CHR 0x0D \<and> c \<noteq> CHR 0x09 \<and> literal_body s)"

fun read_body :: "string \<Rightarrow> string option" where
  "read_body [] = None"
| "read_body (c # s) =
     (if c = CHR 0x22 then (if s = [] then Some [] else None)
      else if c = CHR 0x5C then
        (case s of
           [] \<Rightarrow> None
         | d # s' \<Rightarrow>
             (case decode_escape d of
                None \<Rightarrow> None
              | Some x \<Rightarrow> map_option ((#) x) (read_body s')))
      else if c = CHR 0x0A \<or> c = CHR 0x0D then None
      else map_option ((#) c) (read_body s))"

fun read_literal :: "string \<Rightarrow> string option" where
  "read_literal [] = None"
| "read_literal (c # s) = (if c = CHR 0x22 then read_body s else None)"

text \<open>What escapeString does to one character.\<close>

definition escape_char :: "char \<Rightarrow> string" where
  "escape_char c =
     (if c = CHR 0x5C then [CHR 0x5C, CHR 0x5C]
      else if c = CHR 0x22 then [CHR 0x5C, CHR 0x22]
      else if c = CHR 0x0A then [CHR 0x5C, CHR ''n'']
      else if c = CHR 0x0D then [CHR 0x5C, CHR ''r'']
      else if c = CHR 0x09 then [CHR 0x5C, CHR ''t'']
      else [c])"

text \<open>The operator token of each binary comparison and arithmetic opcode.\<close>

fun binary_token :: "string \<Rightarrow> string option" where
  "binary_token opc =
     (if opc = ''operator_equals'' then Some ''==''
      else if opc = ''operator_greaterthan'' \<or> opc = ''operator_gt'' then Some ''>''
      else if opc = ''operator_lessthan'' \<or> opc = ''operator_lt'' then Some ''<''
      else if opc = ''operator_add'' then Some ''+''
      else if opc = ''operator_subtract'' then Some ''-''
      else if opc = ''operator_multiply'' then Some ''*''
      else if opc = ''operator_divide'' then Some ''/''
      else None)"

text \<open>The indentation of a line at a nesting level.\<close>

definition indent_of :: "nat \<Rightarrow> string" where
  "indent_of indentation = replicate (indentation * 4) CHR '' ''"

text \<open>The values one block marks as children: the second element of each of its inputs
  that is an array of at least two elements with a string there, and its \<^verbatim>\<open>next\<close> when
  truthy. An identifier is a child when some block of the graph marks it, and an event
  block when its opcode starts with \<^verbatim>\<open>event_\<close>.\<close>

definition marks :: "json \<Rightarrow> json list" where
  "marks block =
     (case js_get block ''inputs'' of
        Inr inputs \<Rightarrow>
          (if js_truthy inputs
           then (case js_values inputs of Inr vs \<Rightarrow> concat (map inputChild vs) | Inl e \<Rightarrow> [])
           else [])
      | Inl e \<Rightarrow> [])
     @ (case js_get block ''next'' of
          Inr next \<Rightarrow> if js_truthy next then [next] else []
        | Inl e \<Rightarrow> [])"

definition is_child :: "(string \<times> json) list \<Rightarrow> string \<Rightarrow> bool" where
  "is_child kvs k = (JStr k \<in> set (concat (map (\<lambda>kv. marks (snd kv)) kvs)))"

definition is_event :: "(string \<times> json) list \<Rightarrow> string \<Rightarrow> bool" where
  "is_event kvs k =
     (case map_of kvs k of
        Some block \<Rightarrow>
          (case js_get block ''opcode'' of Inr (JStr opc) \<Rightarrow> prefix ''event_'' opc | _ \<Rightarrow> False)
      | None \<Rightarrow> False)"

text \<open>The explicit declarations, normalized: what one entry of \<^verbatim>\<open>variables\<close> or of
  \<^verbatim>\<open>lists\<close> declares (nothing when it is not an array, when its name is falsy, or, for
  a variable, when its name is the cloud marker), and the value the entries declare for
  a name, a later entry replacing an earlier one.\<close>

definition declaredVariable :: "json \<Rightarrow> (string \<times> json) list" where
  "declaredVariable variable =
     (case variable of
        JArr (name # rest) \<Rightarrow>
          if js_truthy name \<and> name \<noteq> JStr cloud then
            (case js_toString name of
               Inr k \<Rightarrow>
                 [(k, case rest of [] \<Rightarrow> JStr [] | v # vs \<Rightarrow> if v = JUndefined then JStr [] else v)]
             | Inl e \<Rightarrow> [])
          else []
      | _ \<Rightarrow> [])"

definition explicitVariables :: "json list \<Rightarrow> string \<Rightarrow> json option" where
  "explicitVariables vs = map_of (rev (concat (map declaredVariable vs)))"

definition declaredList :: "json \<Rightarrow> (string \<times> json) list" where
  "declaredList list =
     (case list of
        JArr (name # rest) \<Rightarrow>
          if js_truthy name then
            (case js_toString name of
               Inr k \<Rightarrow> [(k, case rest of [] \<Rightarrow> JArr [] | v # vs \<Rightarrow> js_or v (JArr []))]
             | Inl e \<Rightarrow> [])
          else []
      | _ \<Rightarrow> [])"

definition explicitLists :: "json list \<Rightarrow> string \<Rightarrow> json option" where
  "explicitLists ls = map_of (rev (concat (map declaredList ls)))"

text \<open>The explicit declarations of \<^verbatim>\<open>variables\<close> and of \<^verbatim>\<open>lists\<close> in either shape
  (none when the argument is not an array or an object); the name a block gives a
  variable or a list by referring to it, as the scan reads it; and a map completed with
  a default under the names the blocks refer to, where it has no value. A name that is a
  member of \<^verbatim>\<open>Object.prototype\<close> gets no default: \<^verbatim>\<open>name in obj\<close> holds of it.\<close>

definition declaredVariables :: "json \<Rightarrow> string \<Rightarrow> json option" where
  "declaredVariables variables =
     (if js_truthy variables \<and> isObjectType variables then
        (case js_values variables of Inr vs \<Rightarrow> explicitVariables vs | Inl e \<Rightarrow> Map.empty)
      else Map.empty)"

definition declaredLists :: "json \<Rightarrow> string \<Rightarrow> json option" where
  "declaredLists lists' =
     (if js_truthy lists' \<and> isObjectType lists' then
        (case js_values lists' of Inr ls \<Rightarrow> explicitLists ls | Inl e \<Rightarrow> Map.empty)
      else Map.empty)"

definition referencedVariable :: "json \<Rightarrow> string list" where
  "referencedVariable block =
     (case js_get block ''opcode'' of
        Inr opcode \<Rightarrow>
          if opcode = JStr ''data_setvariableto'' \<or> opcode = JStr ''data_changevariableby'' then
            (case field0 block ''VARIABLE'' of
               Inr name \<Rightarrow>
                 if js_truthy name \<and> name \<noteq> JStr cloud then
                   (case js_toString name of Inr k \<Rightarrow> [k] | Inl e \<Rightarrow> [])
                 else []
             | Inl e \<Rightarrow> [])
          else []
      | Inl e \<Rightarrow> [])"

definition referencedList :: "json \<Rightarrow> string list" where
  "referencedList block =
     (case js_get block ''opcode'' of
        Inr opcode \<Rightarrow>
          if opcode = JStr ''data_setvariableto'' \<or> opcode = JStr ''data_changevariableby'' then []
          else if js_startsWith opcode ''data_'' = Inr True then
            (case field0 block ''LIST'' of
               Inr name \<Rightarrow>
                 if js_truthy name then
                   (case js_toString name of Inr k \<Rightarrow> [k] | Inl e \<Rightarrow> [])
                 else []
             | Inl e \<Rightarrow> [])
          else []
      | Inl e \<Rightarrow> [])"

definition inferredVariables :: "json \<Rightarrow> string list" where
  "inferredVariables blocks =
     (case js_values blocks of Inr bs \<Rightarrow> concat (map referencedVariable bs) | Inl e \<Rightarrow> [])"

definition inferredLists :: "json \<Rightarrow> string list" where
  "inferredLists blocks =
     (case js_values blocks of Inr bs \<Rightarrow> concat (map referencedList bs) | Inl e \<Rightarrow> [])"

definition or_inferred :: "string list \<Rightarrow> json \<Rightarrow> (string \<Rightarrow> json option) \<Rightarrow> string \<Rightarrow> json option" where
  "or_inferred names dflt m x =
     (case m x of
        Some v \<Rightarrow> Some v
      | None \<Rightarrow> if x \<in> set names \<and> x \<notin> set Object_prototype then Some dflt else None)"

text \<open>The opcodes whose case of the switch ends in \<^verbatim>\<open>return\<close>: decompileBlock does not go
  on to \<^verbatim>\<open>block.next\<close> for them. \<open>breaks\<close> holds of an outcome of the switch that is not
  a \<^verbatim>\<open>return\<close>.\<close>

definition expression_opcodes :: "string list" where
  "expression_opcodes =
     [''data_variable'', ''data_listcontents'', ''data_itemoflist'', ''data_lengthoflist'',
      ''operator_equals'', ''operator_greaterthan'', ''operator_gt'', ''operator_lessthan'',
      ''operator_lt'', ''operator_not'', ''operator_add'', ''operator_subtract'',
      ''operator_multiply'', ''operator_divide'', ''operator_join'', ''sensing_touchingobject'',
      ''sensing_mousedown'', ''sensing_mousex'', ''sensing_mousey'', ''sensing_keyoptions'']"

definition breaks :: "error + completion \<Rightarrow> bool" where
  "breaks m = (\<forall>v. m \<noteq> Inr (Return v))"

text \<open>A block without arguments: its \<^verbatim>\<open>fields\<close> and its \<^verbatim>\<open>inputs\<close> are absent or the
  empty object, and it has no \<^verbatim>\<open>mutation\<close>. \<open>completes\<close> holds of an outcome of the switch
  that is a \<^verbatim>\<open>break\<close> with some text.\<close>

definition bare :: "json \<Rightarrow> bool" where
  "bare block =
     ((js_get block ''fields'' = Inr JUndefined \<or> js_get block ''fields'' = Inr (JObj []))
      \<and> (js_get block ''inputs'' = Inr JUndefined \<or> js_get block ''inputs'' = Inr (JObj []))
      \<and> js_get block ''mutation'' = Inr JUndefined)"

definition completes :: "error + completion \<Rightarrow> bool" where
  "completes m = (\<exists>s. m = Inr (Break s))"

section \<open>Example inputs\<close>

text \<open>A \<^verbatim>\<open>Number\<close> for the examples: it agrees with JavaScript's on the decimal integer
  literals of at most fifteen digits without a leading zero, and is NaN elsewhere. The
  examples apply it to such literals and to texts that are not numbers in JavaScript
  either.\<close>

definition decimalNumber :: "string \<Rightarrow> string" where
  "decimalNumber s =
     (if s \<noteq> [] \<and> length s \<le> 15 \<and> list_all (\<lambda>c. c \<in> set ''0123456789'') s
         \<and> (hd s \<noteq> CHR ''0'' \<or> length s = 1)
      then s else ''NaN'')"

text \<open>\<^verbatim>\<open>{opcode: "operator_add", inputs: {OPERAND1: [1, [4, "1"]], OPERAND2: [1, [4, "2"]]}}\<close>\<close>

definition ex_add :: json where
  "ex_add = JObj [(''opcode'', JStr ''operator_add''),
     (''inputs'', JObj [(''OPERAND1'', JArr [JNum ''1'', JArr [JNum ''4'', JStr ''1'']]),
                        (''OPERAND2'', JArr [JNum ''1'', JArr [JNum ''4'', JStr ''2'']])])]"

text \<open>An if/else block with a body and no alternate body, and the graph it is in:
  \<^verbatim>\<open>{c: {opcode: "control_if_else", inputs: {SUBSTACK: [2, "s"]}, next: null},
    s: {opcode: "looks_show", next: null}}\<close>\<close>

definition ex_if_else :: json where
  "ex_if_else = JObj [(''opcode'', JStr ''control_if_else''),
     (''inputs'', JObj [(''SUBSTACK'', JArr [JNum ''2'', JStr ''s''])]), (''next'', JNull)]"

definition ex_if_else_blocks :: json where
  "ex_if_else_blocks =
     JObj [(''c'', ex_if_else), (''s'', JObj [(''opcode'', JStr ''looks_show''), (''next'', JNull)])]"

text \<open>An event block that another block names as its \<^verbatim>\<open>next\<close>:
  \<^verbatim>\<open>{A: {opcode: "event_whenflagclicked", next: null}, B: {opcode: "looks_show", next: "A"}}\<close>\<close>

definition ex_event_child :: "(string \<times> json) list" where
  "ex_event_child = [
     (''A'', JObj [(''opcode'', JStr ''event_whenflagclicked''), (''next'', JNull)]),
     (''B'', JObj [(''opcode'', JStr ''looks_show''), (''next'', JStr ''A'')])]"

text \<open>A green-flag script that sets \<^verbatim>\<open>score\<close> and changes \<^verbatim>\<open>lives\<close>; the
  declarations \<^verbatim>\<open>[["score", 7], ["i", 7]]\<close> and \<^verbatim>\<open>{l: ["numbers", []]}\<close>; and what
  is collected from the three.\<close>

definition ex_vars_blocks :: json where
  "ex_vars_blocks = JObj [
     (''A'', JObj [(''opcode'', JStr ''event_whenflagclicked''), (''next'', JStr ''B'')]),
     (''B'', JObj [(''opcode'', JStr ''data_setvariableto''),
                   (''fields'', JObj [(''VARIABLE'', JArr [JStr ''score'', JStr ''id1''])]),
                   (''inputs'', JObj [(''VALUE'', JArr [JNum ''1'', JArr [JNum ''10'', JStr ''5'']])]),
                   (''next'', JStr ''C'')]),
     (''C'', JObj [(''opcode'', JStr ''data_changevariableby''),
                   (''fields'', JObj [(''VARIABLE'', JArr [JStr ''lives'', JStr ''id2''])]),
                   (''inputs'', JObj [(''VALUE'', JArr [JNum ''1'', JArr [JNum ''4'', JStr ''1'']])]),
                   (''next'', JNull)])]"

definition ex_vars :: json where
  "ex_vars = JArr [JArr [JStr ''score'', JNum ''7''], JArr [JStr ''i'', JNum ''7'']]"

definition ex_lists :: json where
  "ex_lists = JObj [(''l'', JArr [JStr ''numbers'', JArr []])]"

definition ex_vars_decls :: decls where
  "ex_vars_decls = \<lparr>foundVariables = [JStr ''score'', JStr ''i'', JStr ''lives''],
     foundLists = [JStr ''numbers''],
     variableInitialValues = [(''score'', JNum ''7''), (''i'', JNum ''1''), (''lives'', JStr []),
       (''len'', JNum ''0''), (''j'', JNum ''1''), (''k'', JNum ''1''), (''result'', JStr []),
       (''separator'', JStr []), (''current'', JStr []), (''next'', JStr [])],
     listInitialValues = [(''numbers'', JArr [])]\<rparr>"

text \<open>The declarations of two lists without values, \<^verbatim>\<open>[["numbers"], ["scores", []]]\<close>, and
  a graph of one block that adds to a third list,
  \<^verbatim>\<open>{A: {opcode: "data_addtolist", fields: {LIST: ["items"]}}}\<close>; what is collected from
  them, and the code generated.\<close>

definition ex_seed_blocks :: json where
  "ex_seed_blocks = JObj [(''A'', JObj [(''opcode'', JStr ''data_addtolist''),
     (''fields'', JObj [(''LIST'', JArr [JStr ''items''])])])]"

definition ex_seed_lists :: json where
  "ex_seed_lists = JArr [JArr [JStr ''numbers''], JArr [JStr ''scores'', JArr []]]"

definition ex_seed_decls :: decls where
  "ex_seed_decls = \<lparr>foundVariables = [],
     foundLists = [JStr ''numbers'', JStr ''scores'', JStr ''items''],
     variableInitialValues = knownVariables [],
     listInitialValues = [(''numbers'', JArr []), (''scores'', JArr []), (''items'', JArr [])]\<rparr>"

definition ex_seed_code :: string where
  "ex_seed_code = ''// Decompiled from Scratch project\<newline>\<newline>''
     @ ''list.newList(\"numbers\", [1, 2, 3, 4, 5, 6, 7, 8, 9, 10], false);\<newline>''
     @ ''list.createList(\"scores\");\<newline>''
     @ ''list.createList(\"items\");\<newline>''
     @ ''\<newline>// Main code\<newline>list.addItem(\"items\", null);\<newline>\<newline>''"

text \<open>A graph whose two blocks name each other as \<^verbatim>\<open>next\<close>, the first an event block:
  \<^verbatim>\<open>{A: {opcode: "event_whenflagclicked", next: "B"}, B: {opcode: "looks_show", next: "A"}}\<close>;
  a sprite with that graph, and a project of a stage and two sprites, the sprite with the
  cycle first.\<close>

definition ex_cycle_A :: json where
  "ex_cycle_A = JObj [(''opcode'', JStr ''event_whenflagclicked''), (''next'', JStr ''B'')]"

definition ex_cycle_B :: json where
  "ex_cycle_B = JObj [(''opcode'', JStr ''looks_show''), (''next'', JStr ''A'')]"

definition ex_cycle :: json where
  "ex_cycle = JObj [(''A'', ex_cycle_A), (''B'', ex_cycle_B)]"

definition ex_cat :: json where
  "ex_cat = JObj [(''isStage'', JBool False), (''name'', JStr ''Cat''), (''blocks'', ex_cycle)]"

definition ex_project :: json where
  "ex_project = JObj [(''targets'', JArr [
     JObj [(''isStage'', JBool True), (''name'', JStr ''Stage''), (''blocks'', JObj [])],
     ex_cat,
     JObj [(''isStage'', JBool False), (''name'', JStr ''Dog''), (''blocks'', JObj [])]])]"

text \<open>The same cycle with a \<^verbatim>\<open>looks_say\<close> block whose message is the number 42:
  \<^verbatim>\<open>{A: {opcode: "event_whenflagclicked", next: "B"},
    B: {opcode: "looks_say", fields: {MESSAGE: [42]}, next: "A"}}\<close>\<close>

definition ex_say_B :: json where
  "ex_say_B = JObj [(''opcode'', JStr ''looks_say''),
     (''fields'', JObj [(''MESSAGE'', JArr [JNum ''42''])]), (''next'', JStr ''A'')]"

definition ex_say_cycle :: json where
  "ex_say_cycle = JObj [(''A'', ex_cycle_A), (''B'', ex_say_B)]"

section \<open>Properties\<close>

subsection \<open>The error monad\<close>

lemma ebind_Inr [simp]: "ebind (Inr x) f = f x"
  by (simp add: ebind_def)

lemma ebind_Inl [simp]: "ebind (Inl e) f = Inl e"
  by (simp add: ebind_def)

lemma ebind_eq_Inr: "ebind m f = Inr y \<longleftrightarrow> (\<exists>x. m = Inr x \<and> f x = Inr y)"
  by (cases m) simp_all

subsection \<open>escapeString\<close>

lemma replace_all_Nil: "replace_all c r [] = []"
  by (simp add: replace_all_def)

lemma replace_all_Cons:
  "replace_all c r (x # s) = (if x = c then r else [x]) @ replace_all c r s"
  by (simp add: replace_all_def)

lemma replace_all_append: "replace_all c r (s @ t) = replace_all c r s @ replace_all c r t"
  by (simp add: replace_all_def)

lemma escapeString_Nil: "escapeString [] = []"
  by (simp add: escapeString_def replace_all_Nil)

text \<open>The five passes amount to one pass that escapes each character on its own: the
  backslashes are doubled first, and no later pass looks for a backslash.\<close>

lemma escapeString_Cons: "escapeString (c # s) = escape_char c @ escapeString s"
  by (simp add: escapeString_def escape_char_def replace_all_Cons replace_all_append
      replace_all_Nil)

lemma unescape_escapeString: "unescape (escapeString s) = Some s"
  by (induction s) (simp_all add: escapeString_Nil escapeString_Cons escape_char_def)

lemma literal_body_escapeString: "literal_body (escapeString s)"
  by (induction s) (simp_all add: escapeString_Nil escapeString_Cons escape_char_def)

lemma read_body_escapeString: "read_body (escapeString s @ [CHR 0x22]) = Some s"
  by (induction s) (simp_all add: escapeString_Nil escapeString_Cons escape_char_def)

text \<open>Claim C10. For every string \<open>s\<close>, reading escapeString's output back under the
  escape rules gives \<open>s\<close>; the output has no double quote, line feed, carriage return or
  tab that is not escaped; and the output between two double quotes reads as one
  literal, whose value is \<open>s\<close>.\<close>

theorem escapeString_round_trip:
  "unescape (escapeString s) = Some s
   \<and> literal_body (escapeString s)
   \<and> read_literal (CHR 0x22 # escapeString s @ [CHR 0x22]) = Some s"
  by (simp add: unescape_escapeString literal_body_escapeString read_body_escapeString)

subsection \<open>Binary operators\<close>

lemma binary_token_cases:
  assumes "binary_token opc = Some tok"
  shows "(opc, tok) \<in> set [(''operator_equals'', ''==''), (''operator_greaterthan'', ''>''),
           (''operator_gt'', ''>''), (''operator_lessthan'', ''<''), (''operator_lt'', ''<''),
           (''operator_add'', ''+''), (''operator_subtract'', ''-''),
           (''operator_multiply'', ''*''), (''operator_divide'', ''/'')]"
  using assms by (auto split: if_splits)

lemma switch_binary:
  assumes "js_get block ''opcode'' = Inr (JStr opc)"
    and "binary_token opc = Some tok"
    and "input_of block ''OPERAND1'' = Inr i1"
    and "input_of block ''OPERAND2'' = Inr i2"
    and "pin i1 indentation = Inr left"
    and "pin i2 indentation = Inr right"
    and "js_toString left = Inr l"
    and "js_toString right = Inr r"
  shows "decompileSwitch pin dec blocks block indentation
            = Inr (Return (JStr (l @ '' '' @ tok @ '' '' @ r)))"
  using binary_token_cases [OF assms(2)] assms(1,3-)
  apply (simp only: set_simps insert_iff empty_iff prod.inject)
  apply (elim disjE conjE)
          apply (simp_all add: decompileSwitch_def processInputOf_def expr_def template_def)
  done

text \<open>Claim C5. A block whose opcode is one of the binary comparison and arithmetic
  opcodes is decompiled to \<open>left op right\<close>: \<open>left\<close> and \<open>right\<close> are what processInput
  gives for \<^verbatim>\<open>block.inputs?.OPERAND1\<close> and \<^verbatim>\<open>block.inputs?.OPERAND2\<close>, as the template
  literal prints them, and \<open>op\<close> is the opcode's token, with one space on each side.\<close>

theorem binary_operator_text:
  assumes "js_get block ''opcode'' = Inr (JStr opc)"
    and "binary_token opc = Some tok"
    and "input_of block ''OPERAND1'' = Inr i1"
    and "input_of block ''OPERAND2'' = Inr i2"
    and "processInput toNumber depth blocks i1 indentation = Inr left"
    and "processInput toNumber depth blocks i2 indentation = Inr right"
    and "js_toString left = Inr l"
    and "js_toString right = Inr r"
  shows "decompileBlock toNumber (Suc depth) blocks blockId block indentation =
           Inr (JStr (l @ '' '' @ tok @ '' '' @ r))"
  by (simp add: decompileBlock.simps
      switch_binary [where pin = "\<lambda>i k. processInput toNumber depth blocks i k", OF assms])

theorem binary_operator_text_witness:
  "js_get ex_add ''opcode'' = Inr (JStr ''operator_add'')
   \<and> binary_token ''operator_add'' = Some ''+''
   \<and> processInput decimalNumber 0 (JObj []) (JArr [JNum ''1'', JArr [JNum ''4'', JStr ''1'']]) 0
       = Inr (JStr ''1'')
   \<and> processInput decimalNumber 0 (JObj []) (JArr [JNum ''1'', JArr [JNum ''4'', JStr ''2'']]) 0
       = Inr (JStr ''2'')
   \<and> decompileBlock decimalNumber (Suc 0) (JObj []) (JStr ''a'') ex_add 0 = Inr (JStr ''1 + 2'')"
proof -
  have 1: "js_get ex_add ''opcode'' = Inr (JStr ''operator_add'')"
    by (simp add: ex_add_def)
  have 2: "binary_token ''operator_add'' = Some ''+''"
    by simp
  have 3: "input_of ex_add ''OPERAND1'' = Inr (JArr [JNum ''1'', JArr [JNum ''4'', JStr ''1'']])"
    by (simp add: ex_add_def input_of_def js_get_opt_def nullish_def)
  have 4: "input_of ex_add ''OPERAND2'' = Inr (JArr [JNum ''1'', JArr [JNum ''4'', JStr ''2'']])"
    by (simp add: ex_add_def input_of_def js_get_opt_def nullish_def)
  have 5: "processInput decimalNumber 0 (JObj [])
             (JArr [JNum ''1'', JArr [JNum ''4'', JStr ''1'']]) 0 = Inr (JStr ''1'')"
    by code_simp
  have 6: "processInput decimalNumber 0 (JObj [])
             (JArr [JNum ''1'', JArr [JNum ''4'', JStr ''2'']]) 0 = Inr (JStr ''2'')"
    by code_simp
  have "decompileBlock decimalNumber (Suc 0) (JObj []) (JStr ''a'') ex_add 0 = Inr (JStr ''1 + 2'')"
    using binary_operator_text [OF 1 2 3 4 5 6, of "''1''" "''2''" "JStr ''a''"] by simp
  with 1 2 5 6 show ?thesis
    by simp
qed

subsection \<open>processInput\<close>

text \<open>Claim C9. An input whose second element is a literal (an array of at least two
  elements) with a string \<open>s\<close> as its value is printed as the number \<open>s\<close> parses to when
  it parses to one and is not blank, else as \<open>s\<close> itself when \<open>s\<close> is one of the eight
  known variable names, else as \<open>s\<close> escaped between double quotes.\<close>

theorem literal_string_input:
  "processInput toNumber depth blocks (JArr (t # JArr (k # JStr s # ys) # rest)) indentation =
     Inr (JStr (if toNumber s \<noteq> ''NaN'' \<and> trim s \<noteq> [] then toNumber s
                else if s \<in> set [''i'', ''j'', ''k'', ''len'', ''current'', ''next'', ''result'',
                                  ''separator'']
                then s
                else ''\"'' @ escapeString s @ ''\"''))"
  by (simp add: processInput.simps Let_def)

text \<open>The four malformed shapes that processInput answers with \<^verbatim>\<open>null\<close>: a falsy
  input, an input that is not an array, an array of fewer than two elements, and a
  reference to an identifier the graph does not have.\<close>

lemma processInput_falsy:
  "\<not> js_truthy input \<Longrightarrow> processInput toNumber depth blocks input indentation = Inr (JStr ''null'')"
  by (simp add: processInput.simps)

lemma processInput_not_array:
  "\<not> isArray input \<Longrightarrow> processInput toNumber depth blocks input indentation = Inr (JStr ''null'')"
  by (simp add: processInput.simps)

lemma processInput_short:
  "length xs < 2 \<Longrightarrow>
     processInput toNumber depth blocks (JArr xs) indentation = Inr (JStr ''null'')"
  by (simp add: processInput.simps)

lemma processInput_dangling:
  "js_get blocks ident = Inr JUndefined \<Longrightarrow>
     processInput toNumber depth blocks (JArr (t # JStr ident # rest)) indentation
       = Inr (JStr ''null'')"
  by (simp add: processInput.simps lookup_def)

text \<open>Claim C6. The claim fails on a literal whose value is \<^verbatim>\<open>null\<close>: for the input
  \<^verbatim>\<open>[1, [10, null]]\<close> the source reaches \<^verbatim>\<open>value.toString()\<close> with \<^verbatim>\<open>value\<close> null, and
  processInput raises a TypeError instead of returning a text. (The guard before the
  call only excludes \<^verbatim>\<open>undefined\<close>.)\<close>

theorem processInput_null_literal:
  "processInput decimalNumber 0 (JObj []) (JArr [JNum ''1'', JArr [JNum ''10'', JNull]]) 0
     = Inl TypeError"
  by (simp add: processInput.simps js_toString_method_def nullish_def)

subsection \<open>Branching blocks\<close>

lemma switch_if:
  assumes "js_get block ''opcode'' = Inr (JStr ''control_if'')"
    and "input_of block ''CONDITION'' = Inr c"
    and "pin c indentation = Inr cond"
    and "js_toString cond = Inr cs"
    and "substack dec blocks block ''SUBSTACK'' indentation = Inr body"
  shows "decompileSwitch pin dec blocks block indentation =
           Inr (Break (indent_of indentation @ ''if ('' @ cs @ '') {\<newline>'' @ body
                       @ indent_of indentation @ ''}\<newline>''))"
  using assms
  by (simp add: decompileSwitch_def processInputOf_def braces_def template_def indent_of_def)

lemma switch_if_else:
  assumes "js_get block ''opcode'' = Inr (JStr ''control_if_else'')"
    and "input_of block ''CONDITION'' = Inr c"
    and "pin c indentation = Inr cond"
    and "js_toString cond = Inr cs"
    and "substack dec blocks block ''SUBSTACK'' indentation = Inr body"
    and "substack dec blocks block ''SUBSTACK2'' indentation = Inr body2"
  shows "decompileSwitch pin dec blocks block indentation =
           Inr (Break (indent_of indentation @ ''if ('' @ cs @ '') {\<newline>'' @ body
                       @ indent_of indentation @ ''} else {\<newline>'' @ body2
                       @ indent_of indentation @ ''}\<newline>''))"
  using assms
  by (simp add: decompileSwitch_def processInputOf_def template_def indent_of_def)

lemma substack_absent:
  assumes "input_of block name = Inr s" and "\<not> js_truthy s"
  shows "substack dec blocks block name indentation = Inr []"
  using assms by (simp add: substack_def)

text \<open>Claim C7, amended. A \<^verbatim>\<open>control_if\<close> block is printed as an \<^verbatim>\<open>if\<close> with its body and
  no \<^verbatim>\<open>else\<close>. A \<^verbatim>\<open>control_if_else\<close> block is always printed as an \<^verbatim>\<open>if\<close>/\<^verbatim>\<open>else\<close> pair:
  when it has no alternate body (\<^verbatim>\<open>block.inputs?.SUBSTACK2\<close> is falsy) the \<^verbatim>\<open>else\<close> block
  is still printed, with nothing between its braces. Both are followed by the text of
  the \<^verbatim>\<open>next\<close> chain.\<close>

theorem branching_text:
  assumes "js_get block ''opcode'' = Inr (JStr opc)"
    and "opc = ''control_if'' \<or> opc = ''control_if_else''"
    and "input_of block ''CONDITION'' = Inr c"
    and "processInput toNumber depth blocks c indentation = Inr cond"
    and "js_toString cond = Inr cs"
    and "substack (decompileBlock toNumber depth blocks) blocks block ''SUBSTACK'' indentation
           = Inr body"
    and "input_of block ''SUBSTACK2'' = Inr s2"
    and "opc = ''control_if_else'' \<Longrightarrow>
           substack (decompileBlock toNumber depth blocks) blocks block ''SUBSTACK2'' indentation
             = Inr body2"
    and "next_chain (decompileBlock toNumber depth blocks) blocks block indentation = Inr rest"
  shows "decompileBlock toNumber (Suc depth) blocks blockId block indentation =
           Inr (JStr (indent_of indentation @ ''if ('' @ cs @ '') {\<newline>'' @ body
                      @ (if opc = ''control_if_else''
                         then indent_of indentation @ ''} else {\<newline>''
                              @ (if js_truthy s2 then body2 else [])
                         else [])
                      @ indent_of indentation @ ''}\<newline>'' @ rest))"
proof (cases "opc = ''control_if_else''")
  case True
  have b2: "\<not> js_truthy s2 \<Longrightarrow> body2 = []"
    using substack_absent [OF assms(7)] assms(8) [OF True] by simp
  have "decompileSwitch (\<lambda>i k. processInput toNumber depth blocks i k)
          (\<lambda>b c k. decompileBlock toNumber depth blocks b c k) blocks block indentation =
        Inr (Break (indent_of indentation @ ''if ('' @ cs @ '') {\<newline>'' @ body
                       @ indent_of indentation @ ''} else {\<newline>'' @ body2
                       @ indent_of indentation @ ''}\<newline>''))"
    using assms(1,3-6) assms(8) [OF True] True
    by (intro switch_if_else) simp_all
  then show ?thesis
    using True assms(9) b2 by (auto simp add: decompileBlock.simps)
next
  case False
  then have opc: "opc = ''control_if''"
    using assms(2) by simp
  have "decompileSwitch (\<lambda>i k. processInput toNumber depth blocks i k)
          (\<lambda>b c k. decompileBlock toNumber depth blocks b c k) blocks block indentation =
        Inr (Break (indent_of indentation @ ''if ('' @ cs @ '') {\<newline>'' @ body
                       @ indent_of indentation @ ''}\<newline>''))"
    using assms(1,3-6) opc
    by (intro switch_if) simp_all
  then show ?thesis
    using opc assms(9) by (simp add: decompileBlock.simps)
qed

text \<open>The theorem at the if/else block of the example, which has a body and no alternate
  body: the \<^verbatim>\<open>else\<close> block is there, empty.\<close>

theorem branching_text_witness:
  "js_get ex_if_else ''opcode'' = Inr (JStr ''control_if_else'')
   \<and> input_of ex_if_else ''SUBSTACK2'' = Inr JUndefined
   \<and> decompileBlock decimalNumber (Suc (Suc 0)) ex_if_else_blocks (JStr ''c'') ex_if_else 0 =
       Inr (JStr (''if (null) {\<newline>'' @ ''    looks.show();\<newline>'' @ ''} else {\<newline>'' @ ''}\<newline>''))"
proof -
  have 1: "js_get ex_if_else ''opcode'' = Inr (JStr ''control_if_else'')"
    by (simp add: ex_if_else_def)
  have 3: "input_of ex_if_else ''CONDITION'' = Inr JUndefined"
    by code_simp
  have 4: "processInput decimalNumber (Suc 0) ex_if_else_blocks JUndefined 0 = Inr (JStr ''null'')"
    by (simp add: processInput.simps)
  have 5: "js_toString (JStr ''null'') = Inr ''null''"
    by simp
  have 6: "substack (decompileBlock decimalNumber (Suc 0) ex_if_else_blocks) ex_if_else_blocks
             ex_if_else ''SUBSTACK'' 0 = Inr ''    looks.show();\<newline>''"
    by code_simp
  have 7: "input_of ex_if_else ''SUBSTACK2'' = Inr JUndefined"
    by code_simp
  have 8: "substack (decompileBlock decimalNumber (Suc 0) ex_if_else_blocks) ex_if_else_blocks
             ex_if_else ''SUBSTACK2'' 0 = Inr []"
    by code_simp
  have 9: "next_chain (decompileBlock decimalNumber (Suc 0) ex_if_else_blocks) ex_if_else_blocks
             ex_if_else 0 = Inr []"
    by code_simp
  have "decompileBlock decimalNumber (Suc (Suc 0)) ex_if_else_blocks (JStr ''c'') ex_if_else 0 =
       Inr (JStr (''if (null) {\<newline>'' @ ''    looks.show();\<newline>'' @ ''} else {\<newline>'' @ ''}\<newline>''))"
    using branching_text [OF 1 _ 3 4 5 6 7 8 9, of "JStr ''c''"]
    by (simp add: indent_of_def)
  with 1 7 show ?thesis
    by simp
qed

text \<open>Claim C7 as stated fails at the same block: it has no alternate body, and the text
  generated for it has an \<^verbatim>\<open>else\<close> block.\<close>

theorem if_else_without_alternate_body:
  "decompileBlock decimalNumber 2 ex_if_else_blocks (JStr ''c'') ex_if_else 0 =
     Inr (JStr ''if (null) {\<newline>    looks.show();\<newline>} else {\<newline>}\<newline>'')"
  by code_simp

subsection \<open>Cloud variables\<close>

text \<open>The test of the source compares the whole name with the marker (\<^verbatim>\<open>!==\<close>): a
  variable whose name is the marker and nothing else is left out.\<close>

lemma addVariable_cloud: "addVariable (JArr (JStr cloud # rest)) d = Inr d"
  by (simp add: addVariable_def)

text \<open>Claim C3. The claim fails on the code: a variable whose name begins with the
  marker and goes on, as the name of every cloud variable does, is declared like any
  other, in the array shape and in the object shape of \<^verbatim>\<open>variables\<close>.\<close>

theorem cloud_prefixed_variable_declared:
  "generateJavaScriptFromBlocks decimalNumber 0 (JObj [])
     (JArr [JArr [JStr (cloud @ '' score''), JNum ''0'', JBool True]]) (JObj []) =
     Inr (''// Decompiled from Scratch project\<newline>\<newline>let '' @ cloud @ '' score = 0;\<newline>\<newline>''
          @ ''// No blocks found\<newline>'')
   \<and> generateJavaScriptFromBlocks decimalNumber 0 (JObj [])
     (JObj [(''id1'', JArr [JStr (cloud @ '' score''), JNum ''0'', JBool True])]) (JObj []) =
     Inr (''// Decompiled from Scratch project\<newline>\<newline>let '' @ cloud @ '' score = 0;\<newline>\<newline>''
          @ ''// No blocks found\<newline>'')"
  by code_simp

subsection \<open>findTopLevelBlocks\<close>

lemma markChildren_marks:
  assumes "markChildren (JObj kvs) k acc = Inr cb" and "map_of kvs k = Some b"
  shows "cb = acc @ marks b"
  using assms
  by (auto simp: markChildren_def marks_def ebind_eq_Inr split: if_splits)

lemma forEach_markChildren:
  assumes "forEach (markChildren (JObj kvs)) (map fst es) acc = Inr cb"
    and "\<And>e. e \<in> set es \<Longrightarrow> map_of kvs (fst e) = Some (snd e)"
  shows "cb = acc @ concat (map (\<lambda>kv. marks (snd kv)) es)"
  using assms
proof (induction es arbitrary: acc)
  case Nil
  then show ?case by simp
next
  case (Cons e es)
  from Cons.prems(1) obtain acc' where
    1: "markChildren (JObj kvs) (fst e) acc = Inr acc'" and
    2: "forEach (markChildren (JObj kvs)) (map fst es) acc' = Inr cb"
    by (auto simp: ebind_eq_Inr)
  have "acc' = acc @ marks (snd e)"
    using markChildren_marks [OF 1] Cons.prems(2) by simp
  moreover have "cb = acc' @ concat (map (\<lambda>kv. marks (snd kv)) es)"
    using Cons.IH [OF 2] Cons.prems(2) by simp
  ultimately show ?case by simp
qed

lemma forceEvent_step:
  assumes "forceEvent (JObj kvs) k ids = Inr ids'"
  shows "ids' = (if is_event kvs k \<and> k \<notin> set ids then ids @ [k] else ids)"
proof -
  from assms obtain block opcode event where
    b: "js_get (JObj kvs) k = Inr block" and o: "js_get block ''opcode'' = Inr opcode"
    and e: "js_startsWith opcode ''event_'' = Inr event"
    and r: "ids' = (if event \<and> k \<notin> set ids then ids @ [k] else ids)"
    by (auto simp: forceEvent_def ebind_eq_Inr)
  from e obtain opc where opc: "opcode = JStr opc" "event = prefix ''event_'' opc"
    by (cases opcode) auto
  from o opc have "block \<noteq> JUndefined"
    by auto
  with b have "map_of kvs k = Some block"
    by (auto split: option.splits if_splits)
  with o opc have "is_event kvs k = event"
    by (simp add: is_event_def)
  with r show ?thesis by simp
qed

lemma forEach_forceEvent:
  assumes "forEach (forceEvent (JObj kvs)) ks ids = Inr ids'" and "distinct ks"
  shows "ids' = ids @ filter (\<lambda>k. is_event kvs k \<and> k \<notin> set ids) ks"
  using assms
proof (induction ks arbitrary: ids)
  case Nil
  then show ?case by simp
next
  case (Cons k ks)
  from Cons.prems(1) obtain ids1 where
    1: "forceEvent (JObj kvs) k ids = Inr ids1" and
    2: "forEach (forceEvent (JObj kvs)) ks ids1 = Inr ids'"
    by (auto simp: ebind_eq_Inr)
  have s: "ids1 = (if is_event kvs k \<and> k \<notin> set ids then ids @ [k] else ids)"
    by (rule forceEvent_step [OF 1])
  have ih: "ids' = ids1 @ filter (\<lambda>x. is_event kvs x \<and> x \<notin> set ids1) ks"
    using Cons.IH [OF 2] Cons.prems(2) by simp
  have k: "k \<notin> set ks"
    using Cons.prems(2) by simp
  have "filter (\<lambda>x. is_event kvs x \<and> x \<notin> set ids1) ks
        = filter (\<lambda>x. is_event kvs x \<and> x \<notin> set ids) ks"
    using s k by (intro filter_cong) auto
  with ih s show ?case by simp
qed

text \<open>Claim C4, amended. When findTopLevelBlocks returns, the entry points are the
  identifiers of the graph that no block marks as a child and the identifiers of its
  event blocks, marked or not. The result lists first the identifiers that are not
  marked, in the order of the block map, and after them the marked event blocks, in the
  order of the block map: an event block that is a child comes after every identifier
  that is not, wherever it stands in the block map.\<close>

theorem top_level_blocks:
  assumes "findTopLevelBlocks (JObj kvs) = Inr ids" and "distinct (map fst kvs)"
  shows "ids = filter (\<lambda>k. \<not> is_child kvs k) (map fst kvs)
               @ filter (\<lambda>k. is_child kvs k \<and> is_event kvs k) (map fst kvs)
         \<and> set ids = {k \<in> fst ` set kvs. \<not> is_child kvs k \<or> is_event kvs k}"
proof -
  from assms(1) obtain cb where
    1: "forEach (markChildren (JObj kvs)) (map fst kvs) [] = Inr cb" and
    2: "forEach (forceEvent (JObj kvs)) (map fst kvs)
          (filter (\<lambda>blockId. JStr blockId \<notin> set cb) (map fst kvs)) = Inr ids"
    by (auto simp: findTopLevelBlocks_def ebind_eq_Inr)
  have "cb = [] @ concat (map (\<lambda>kv. marks (snd kv)) kvs)"
    using assms(2) by (intro forEach_markChildren [OF 1]) auto
  then have cb: "\<And>k. JStr k \<notin> set cb \<longleftrightarrow> \<not> is_child kvs k"
    by (simp add: is_child_def)
  have "ids = filter (\<lambda>k. \<not> is_child kvs k) (map fst kvs)
              @ filter (\<lambda>k. is_event kvs k
                   \<and> k \<notin> set (filter (\<lambda>k. \<not> is_child kvs k) (map fst kvs))) (map fst kvs)"
    using forEach_forceEvent [OF 2 assms(2)] by (simp add: cb)
  moreover have "filter (\<lambda>k. is_event kvs k
                   \<and> k \<notin> set (filter (\<lambda>k. \<not> is_child kvs k) (map fst kvs))) (map fst kvs)
        = filter (\<lambda>k. is_child kvs k \<and> is_event kvs k) (map fst kvs)"
    by (intro filter_cong) auto
  ultimately have ids: "ids = filter (\<lambda>k. \<not> is_child kvs k) (map fst kvs)
               @ filter (\<lambda>k. is_child kvs k \<and> is_event kvs k) (map fst kvs)"
    by simp
  then have "set ids = {k \<in> fst ` set kvs. \<not> is_child kvs k \<or> is_event kvs k}"
    by auto
  with ids show ?thesis by simp
qed

text \<open>The theorem at the graph of the example: \<^verbatim>\<open>B\<close> is not marked, \<^verbatim>\<open>A\<close> is a marked
  event block.\<close>

theorem top_level_blocks_witness:
  "findTopLevelBlocks (JObj ex_event_child) = Inr [''B'', ''A'']
   \<and> distinct (map fst ex_event_child)
   \<and> filter (\<lambda>k. \<not> is_child ex_event_child k) (map fst ex_event_child) = [''B'']
   \<and> filter (\<lambda>k. is_child ex_event_child k \<and> is_event ex_event_child k) (map fst ex_event_child)
       = [''A'']"
proof -
  have 1: "findTopLevelBlocks (JObj ex_event_child) = Inr [''B'', ''A'']"
    by code_simp
  have 2: "distinct (map fst ex_event_child)"
    by (simp add: ex_event_child_def)
  have 3: "filter (\<lambda>k. \<not> is_child ex_event_child k) (map fst ex_event_child) = [''B'']"
    by code_simp
  have 4: "filter (\<lambda>k. is_child ex_event_child k \<and> is_event ex_event_child k)
             (map fst ex_event_child) = [''A'']"
    by code_simp
  from top_level_blocks [OF 1 2] 1 2 3 4 show ?thesis
    by simp
qed

text \<open>Claim C4 as stated fails at the same graph: in the block map \<^verbatim>\<open>A\<close> comes before
  \<^verbatim>\<open>B\<close>, and in the result after it.\<close>

theorem event_child_listed_last:
  "js_keys (JObj ex_event_child) = Inr [''A'', ''B'']
   \<and> findTopLevelBlocks (JObj ex_event_child) = Inr [''B'', ''A'']"
  by code_simp

subsection \<open>Declarations\<close>

lemma rev_declaredVariable: "rev (declaredVariable v) = declaredVariable v"
  by (auto simp: declaredVariable_def split: json.splits list.splits sum.splits)

lemma rev_declaredList: "rev (declaredList v) = declaredList v"
  by (auto simp: declaredList_def split: json.splits list.splits sum.splits)

lemma addVariable_values:
  assumes "addVariable variable d = Inr d'"
  shows "map_of (variableInitialValues d')
           = map_of (variableInitialValues d) ++ map_of (declaredVariable variable)
         \<and> listInitialValues d' = listInitialValues d"
proof (cases variable)
  case (JArr xs)
  show ?thesis
  proof (cases xs)
    case Nil
    with JArr assms show ?thesis
      by (simp add: addVariable_def declaredVariable_def)
  next
    case (Cons name rest)
    with JArr assms show ?thesis
      by (cases rest)
        (auto simp: addVariable_def declaredVariable_def js_set_def ebind_eq_Inr update_conv'
          split: if_splits)
  qed
qed (use assms in \<open>simp_all add: addVariable_def declaredVariable_def\<close>)

lemma forEach_addVariable:
  assumes "forEach addVariable vs d = Inr d'"
  shows "map_of (variableInitialValues d') = map_of (variableInitialValues d) ++ explicitVariables vs
         \<and> listInitialValues d' = listInitialValues d"
  using assms
proof (induction vs arbitrary: d)
  case Nil
  then show ?case by (simp add: explicitVariables_def)
next
  case (Cons v vs)
  from Cons.prems obtain d1 where
    1: "addVariable v d = Inr d1" and 2: "forEach addVariable vs d1 = Inr d'"
    by (auto simp: ebind_eq_Inr)
  from addVariable_values [OF 1] Cons.IH [OF 2] show ?case
    by (simp add: explicitVariables_def rev_declaredVariable)
qed

lemma addList_values:
  assumes "addList list d = Inr d'"
  shows "map_of (listInitialValues d')
           = map_of (listInitialValues d) ++ map_of (declaredList list)
         \<and> variableInitialValues d' = variableInitialValues d"
proof (cases list)
  case (JArr xs)
  show ?thesis
  proof (cases xs)
    case Nil
    with JArr assms show ?thesis
      by (simp add: addList_def declaredList_def)
  next
    case (Cons name rest)
    with JArr assms show ?thesis
      by (cases rest)
        (auto simp: addList_def declaredList_def js_set_def ebind_eq_Inr update_conv' js_or_def
          split: if_splits)
  qed
qed (use assms in \<open>simp_all add: addList_def declaredList_def\<close>)

lemma forEach_addList:
  assumes "forEach addList ls d = Inr d'"
  shows "map_of (listInitialValues d') = map_of (listInitialValues d) ++ explicitLists ls
         \<and> variableInitialValues d' = variableInitialValues d"
  using assms
proof (induction ls arbitrary: d)
  case Nil
  then show ?case by (simp add: explicitLists_def)
next
  case (Cons v vs)
  from Cons.prems obtain d1 where
    1: "addList v d = Inr d1" and 2: "forEach addList vs d1 = Inr d'"
    by (auto simp: ebind_eq_Inr)
  from addList_values [OF 1] Cons.IH [OF 2] show ?case
    by (simp add: explicitLists_def rev_declaredList)
qed

text \<open>The scan stores a default under a name it finds, unless the name has a value or
  is inherited.\<close>

lemma or_inferred_Nil: "or_inferred [] dflt m = m"
  by (auto simp: or_inferred_def split: option.splits)

lemma or_inferred_append: "or_inferred (xs @ ys) dflt m = or_inferred ys dflt (or_inferred xs dflt m)"
  by (auto simp: or_inferred_def fun_eq_iff split: option.splits)

lemma js_set_inferred:
  assumes "js_toString name = Inr k" and "js_in name obj = Inr present"
    and "(if present then Inr obj else js_set obj name dflt) = Inr obj'"
  shows "map_of obj' = or_inferred [k] dflt (map_of obj)"
proof (cases present)
  case True
  with assms have o: "obj' = obj" and p: "k \<in> fst ` set obj \<or> k \<in> set Object_prototype"
    by (auto simp: js_in_def)
  show ?thesis
  proof
    fix x
    show "map_of obj' x = or_inferred [k] dflt (map_of obj) x"
      using o p by (auto simp: or_inferred_def map_of_eq_None_iff split: option.splits)
  qed
next
  case False
  with assms have o: "obj' = AList.update k dflt obj"
    and p: "k \<notin> fst ` set obj" "k \<notin> set Object_prototype"
    by (auto simp: js_in_def js_set_def split: if_splits)
  from p(1) have n: "map_of obj k = None"
    by (simp add: map_of_eq_None_iff)
  show ?thesis
  proof
    fix x
    show "map_of obj' x = or_inferred [k] dflt (map_of obj) x"
      using o p n by (auto simp: or_inferred_def update_conv' split: option.splits)
  qed
qed

lemma scanBlock_inferred:
  assumes "scanBlock block d = Inr d'"
  shows "map_of (variableInitialValues d')
           = or_inferred (referencedVariable block) (JStr []) (map_of (variableInitialValues d))
       \<and> map_of (listInitialValues d')
           = or_inferred (referencedList block) (JArr []) (map_of (listInitialValues d))"
proof -
  from assms obtain opcode where op: "js_get block ''opcode'' = Inr opcode"
    by (auto simp: scanBlock_def ebind_eq_Inr)
  show ?thesis
  proof (cases "opcode = JStr ''data_setvariableto'' \<or> opcode = JStr ''data_changevariableby''")
    case True
    with assms op obtain name where n: "field0 block ''VARIABLE'' = Inr name"
      by (auto simp: scanBlock_def ebind_eq_Inr)
    have l: "referencedList block = []"
      using True op by (simp add: referencedList_def)
    show ?thesis
    proof (cases "js_truthy name \<and> name \<noteq> JStr cloud")
      case t: True
      with assms op True n obtain present vals where
        p: "js_in name (variableInitialValues d) = Inr present"
        and v: "(if present then Inr (variableInitialValues d)
                 else js_set (variableInitialValues d) name (JStr [])) = Inr vals"
        and d': "d' = d\<lparr>foundVariables := set_add (foundVariables d) name,
                        variableInitialValues := vals\<rparr>"
        by (auto simp: scanBlock_def ebind_eq_Inr)
      from p obtain k where k: "js_toString name = Inr k"
        by (auto simp: js_in_def ebind_eq_Inr)
      have "referencedVariable block = [k]"
        using True op n t k by (simp add: referencedVariable_def)
      with js_set_inferred [OF k p v] d' l show ?thesis
        by (simp add: or_inferred_Nil)
    next
      case f: False
      with assms op True n have "d' = d"
        by (auto simp: scanBlock_def)
      moreover have "referencedVariable block = []"
        using True op n f by (auto simp: referencedVariable_def)
      ultimately show ?thesis
        using l by (simp add: or_inferred_Nil)
    qed
  next
    case False
    have r: "referencedVariable block = []"
      using False op by (simp add: referencedVariable_def)
    from assms op False obtain data where dt: "js_startsWith opcode ''data_'' = Inr data"
      by (auto simp: scanBlock_def ebind_eq_Inr)
    show ?thesis
    proof (cases data)
      case f: False
      with assms op False dt have "d' = d"
        by (auto simp: scanBlock_def)
      moreover have "referencedList block = []"
        using False op dt f by (simp add: referencedList_def)
      ultimately show ?thesis
        using r by (simp add: or_inferred_Nil)
    next
      case True
      with assms op False dt obtain name where n: "field0 block ''LIST'' = Inr name"
        by (auto simp: scanBlock_def ebind_eq_Inr)
      show ?thesis
      proof (cases "js_truthy name")
        case t: True
        with assms op False dt \<open>data\<close> n obtain present vals where
          p: "js_in name (listInitialValues d) = Inr present"
          and v: "(if present then Inr (listInitialValues d)
                   else js_set (listInitialValues d) name (JArr [])) = Inr vals"
          and d': "d' = d\<lparr>foundLists := set_add (foundLists d) name,
                          listInitialValues := vals\<rparr>"
          by (auto simp: scanBlock_def ebind_eq_Inr)
        from p obtain k where k: "js_toString name = Inr k"
          by (auto simp: js_in_def ebind_eq_Inr)
        have "referencedList block = [k]"
          using False op dt \<open>data\<close> n t k by (simp add: referencedList_def)
        with js_set_inferred [OF k p v] d' r show ?thesis
          by (simp add: or_inferred_Nil)
      next
        case f: False
        with assms op \<open>\<not> (opcode = JStr ''data_setvariableto'' \<or> opcode = JStr ''data_changevariableby'')\<close>
          dt \<open>data\<close> n have "d' = d"
          by (auto simp: scanBlock_def)
        moreover have "referencedList block = []"
          using \<open>\<not> (opcode = JStr ''data_setvariableto'' \<or> opcode = JStr ''data_changevariableby'')\<close>
            op dt \<open>data\<close> n f by (auto simp: referencedList_def)
        ultimately show ?thesis
          using r by (simp add: or_inferred_Nil)
      qed
    qed
  qed
qed

lemma forEach_scanBlock_inferred:
  assumes "forEach scanBlock bs d = Inr d'"
  shows "map_of (variableInitialValues d')
           = or_inferred (concat (map referencedVariable bs)) (JStr []) (map_of (variableInitialValues d))
       \<and> map_of (listInitialValues d')
           = or_inferred (concat (map referencedList bs)) (JArr []) (map_of (listInitialValues d))"
  using assms
proof (induction bs arbitrary: d)
  case Nil
  then show ?case by (simp add: or_inferred_Nil)
next
  case (Cons b bs)
  from Cons.prems obtain d1 where
    1: "scanBlock b d = Inr d1" and 2: "forEach scanBlock bs d1 = Inr d'"
    by (auto simp: ebind_eq_Inr)
  from scanBlock_inferred [OF 1] Cons.IH [OF 2] show ?case
    by (simp add: or_inferred_append)
qed


text \<open>The eight assignments replace whatever the name had.\<close>

lemma knownVariables_map:
  "map_of (knownVariables values) x =
     (case map_of (knownVariables []) x of Some known \<Rightarrow> Some known | None \<Rightarrow> map_of values x)"
  by (simp add: knownVariables_def update_conv')

text \<open>The values collected before the eight assignments.\<close>

lemma collectDeclarations_values:
  assumes "collectDeclarations blocks variables lists' = Inr d"
  shows "\<exists>d3. d = d3\<lparr>variableInitialValues := knownVariables (variableInitialValues d3)\<rparr>
       \<and> map_of (variableInitialValues d3)
           = or_inferred (inferredVariables blocks) (JStr []) (declaredVariables variables)
       \<and> map_of (listInitialValues d3)
           = or_inferred (inferredLists blocks) (JArr []) (declaredLists lists')"
proof -
  let ?d0 = "\<lparr>foundVariables = [], foundLists = [], variableInitialValues = [],
              listInitialValues = []\<rparr>"
  from assms obtain d1 d2 bs d3 where
    1: "(if js_truthy variables \<and> isObjectType variables then
              (case variables of
                 JArr vs \<Rightarrow> forEach addVariable vs
               | _ \<Rightarrow> (\<lambda>d. ebind (js_values variables) (\<lambda>vs. forEach addVariable vs d))) ?d0
            else Inr ?d0) = Inr d1"
    and 2: "(if js_truthy lists' \<and> isObjectType lists' then
              (case lists' of
                 JArr ls \<Rightarrow> forEach addList ls d1
               | _ \<Rightarrow> ebind (js_values lists') (\<lambda>ls. forEach addList ls d1))
            else Inr d1) = Inr d2"
    and 3: "js_values blocks = Inr bs" and 4: "forEach scanBlock bs d2 = Inr d3"
    and 5: "d = d3\<lparr>variableInitialValues := knownVariables (variableInitialValues d3)\<rparr>"
    unfolding collectDeclarations_def ebind_eq_Inr by blast
  have v1: "map_of (variableInitialValues d1) = declaredVariables variables
            \<and> listInitialValues d1 = []"
  proof (cases "js_truthy variables \<and> isObjectType variables")
    case True
    with 1 obtain vs where vs: "js_values variables = Inr vs" "forEach addVariable vs ?d0 = Inr d1"
      by (cases variables) (auto simp: ebind_eq_Inr)
    from forEach_addVariable [OF vs(2)] True vs(1) show ?thesis
      by (simp add: declaredVariables_def)
  next
    case False
    with 1 show ?thesis
      by (auto simp: declaredVariables_def)
  qed
  have v2: "map_of (listInitialValues d2) = declaredLists lists'
            \<and> variableInitialValues d2 = variableInitialValues d1"
  proof (cases "js_truthy lists' \<and> isObjectType lists'")
    case True
    with 2 obtain ls where ls: "js_values lists' = Inr ls" "forEach addList ls d1 = Inr d2"
      by (cases lists') (auto simp: ebind_eq_Inr)
    from forEach_addList [OF ls(2)] True ls(1) v1 show ?thesis
      by (simp add: declaredLists_def)
  next
    case False
    with 2 v1 show ?thesis
      by (auto simp: declaredLists_def)
  qed
  from forEach_scanBlock_inferred [OF 4] v1 v2 3
  have "map_of (variableInitialValues d3)
              = or_inferred (inferredVariables blocks) (JStr []) (declaredVariables variables)"
    "map_of (listInitialValues d3)
              = or_inferred (inferredLists blocks) (JArr []) (declaredLists lists')"
    by (simp_all add: inferredVariables_def inferredLists_def)
  with 5 show ?thesis
    by blast
qed

text \<open>Claim C2, amended. The value collected for a variable name is, in this order of
  priority: the fixed value, when the name is one of \<^verbatim>\<open>len\<close>, \<^verbatim>\<open>i\<close>, \<^verbatim>\<open>j\<close>, \<^verbatim>\<open>k\<close>,
  \<^verbatim>\<open>result\<close>, \<^verbatim>\<open>separator\<close>, \<^verbatim>\<open>current\<close>, \<^verbatim>\<open>next\<close>, whatever was declared; else the
  value of its (last) explicit declaration; else the empty string, when a block sets or
  changes it. The value collected for a list name is that of its explicit declaration,
  else the empty array when a block refers to it.\<close>

theorem declaration_priority:
  assumes "collectDeclarations blocks variables lists' = Inr d"
  shows "map_of (variableInitialValues d) x =
           (case map_of (knownVariables []) x of
              Some known \<Rightarrow> Some known
            | None \<Rightarrow> or_inferred (inferredVariables blocks) (JStr []) (declaredVariables variables) x)
       \<and> map_of (listInitialValues d) y =
           or_inferred (inferredLists blocks) (JArr []) (declaredLists lists') y"
proof -
  from collectDeclarations_values [OF assms] obtain d3 where
    "d = d3\<lparr>variableInitialValues := knownVariables (variableInitialValues d3)\<rparr>"
    and "map_of (variableInitialValues d3)
           = or_inferred (inferredVariables blocks) (JStr []) (declaredVariables variables)"
    and "map_of (listInitialValues d3)
           = or_inferred (inferredLists blocks) (JArr []) (declaredLists lists')"
    by blast
  then show ?thesis
    by (simp add: knownVariables_map [of "variableInitialValues d3"] split: option.splits)
qed

text \<open>The theorem at the example: \<^verbatim>\<open>i\<close>, declared with 7, is collected with the fixed
  value 1; \<^verbatim>\<open>score\<close>, declared with 7 and set by a block, with 7; \<^verbatim>\<open>lives\<close>, only
  changed by a block, with the empty string; the list \<^verbatim>\<open>numbers\<close> with its declared
  value.\<close>

theorem declaration_priority_witness:
  "collectDeclarations ex_vars_blocks ex_vars ex_lists = Inr ex_vars_decls
   \<and> map_of (variableInitialValues ex_vars_decls) ''i'' = Some (JNum ''1'')
   \<and> map_of (variableInitialValues ex_vars_decls) ''score'' = Some (JNum ''7'')
   \<and> map_of (variableInitialValues ex_vars_decls) ''lives'' = Some (JStr [])
   \<and> map_of (listInitialValues ex_vars_decls) ''numbers'' = Some (JArr [])"
proof -
  have 1: "collectDeclarations ex_vars_blocks ex_vars ex_lists = Inr ex_vars_decls"
    by code_simp
  have i: "(case map_of (knownVariables []) ''i'' of
              Some known \<Rightarrow> Some known
            | None \<Rightarrow> or_inferred (inferredVariables ex_vars_blocks) (JStr [])
                        (declaredVariables ex_vars) ''i'') = Some (JNum ''1'')"
    by code_simp
  have s: "(case map_of (knownVariables []) ''score'' of
              Some known \<Rightarrow> Some known
            | None \<Rightarrow> or_inferred (inferredVariables ex_vars_blocks) (JStr [])
                        (declaredVariables ex_vars) ''score'') = Some (JNum ''7'')"
    by code_simp
  have l: "(case map_of (knownVariables []) ''lives'' of
              Some known \<Rightarrow> Some known
            | None \<Rightarrow> or_inferred (inferredVariables ex_vars_blocks) (JStr [])
                        (declaredVariables ex_vars) ''lives'') = Some (JStr [])"
    by code_simp
  have n: "or_inferred (inferredLists ex_vars_blocks) (JArr []) (declaredLists ex_lists) ''numbers''
             = Some (JArr [])"
    by code_simp
  from declaration_priority [OF 1, of "''i''" "''numbers''"]
    declaration_priority [OF 1, of "''score''" "''numbers''"]
    declaration_priority [OF 1, of "''lives''" "''numbers''"] 1 i s l n
  show ?thesis
    by simp
qed

text \<open>Claim C2 as stated fails for the eight names: a variable \<^verbatim>\<open>i\<close> declared with the
  value 7 is declared in the generated code with the fixed value 1.\<close>

theorem known_name_replaces_declared_value:
  "generateJavaScriptFromBlocks decimalNumber 0 (JObj []) (JArr [JArr [JStr ''i'', JNum ''7'']])
     (JObj []) =
     Inr ''// Decompiled from Scratch project\<newline>\<newline>let i = 1;\<newline>\<newline>// No blocks found\<newline>''"
  by code_simp

subsection \<open>List initializers\<close>

text \<open>Adding to a \<^verbatim>\<open>Set\<close> keeps what it has.\<close>

lemma set_add_found: "set xs \<subseteq> set (set_add xs v) \<and> v \<in> set (set_add xs v)"
  by (auto simp: set_add_def)

lemma addList_found:
  assumes "addList list d = Inr d'"
  shows "set (foundLists d) \<subseteq> set (foundLists d')
       \<and> (\<forall>k\<in>fst ` set (declaredList list). \<exists>n\<in>set (foundLists d'). js_toString n = Inr k)"
proof (cases list)
  case (JArr xs)
  show ?thesis
  proof (cases xs)
    case Nil
    with JArr assms show ?thesis
      by (simp add: addList_def declaredList_def)
  next
    case (Cons name rest)
    show ?thesis
    proof (cases "js_truthy name")
      case True
      with JArr Cons assms obtain k vals where k: "js_toString name = Inr k"
        and d': "d' = d\<lparr>foundLists := set_add (foundLists d) name, listInitialValues := vals\<rparr>"
        by (auto simp: addList_def js_set_def ebind_eq_Inr split: if_splits)
      from JArr Cons True k have "fst ` set (declaredList list) = {k}"
        by (simp add: declaredList_def)
      with d' k set_add_found [of "foundLists d" name] show ?thesis
        by auto
    next
      case False
      with JArr Cons assms show ?thesis
        by (simp add: addList_def declaredList_def)
    qed
  qed
qed (use assms in \<open>simp_all add: addList_def declaredList_def\<close>)

lemma dom_explicitLists_Cons:
  "dom (explicitLists (v # vs)) = fst ` set (declaredList v) \<union> dom (explicitLists vs)"
  by (auto simp: explicitLists_def dom_map_of_conv_image_fst)

lemma forEach_addList_found:
  assumes "forEach addList ls d = Inr d'"
  shows "set (foundLists d) \<subseteq> set (foundLists d')
       \<and> (\<forall>k\<in>dom (explicitLists ls). \<exists>n\<in>set (foundLists d'). js_toString n = Inr k)"
  using assms
proof (induction ls arbitrary: d)
  case Nil
  then show ?case by (simp add: explicitLists_def)
next
  case (Cons v vs)
  from Cons.prems obtain d1 where
    1: "addList v d = Inr d1" and 2: "forEach addList vs d1 = Inr d'"
    by (auto simp: ebind_eq_Inr)
  note a = addList_found [OF 1] and b = Cons.IH [OF 2]
  have "\<exists>n\<in>set (foundLists d'). js_toString n = Inr k" if "k \<in> dom (explicitLists (v # vs))" for k
  proof -
    from that consider "k \<in> fst ` set (declaredList v)" | "k \<in> dom (explicitLists vs)"
      unfolding dom_explicitLists_Cons by blast
    then show ?thesis
    proof cases
      case 1
      with a obtain n where "n \<in> set (foundLists d1)" "js_toString n = Inr k"
        by blast
      with b show ?thesis
        by blast
    next
      case 2
      with b show ?thesis
        by blast
    qed
  qed
  with a b show ?case
    by blast
qed

lemma scanBlock_found:
  assumes "scanBlock block d = Inr d'"
  shows "set (foundLists d) \<subseteq> set (foundLists d')
       \<and> (\<forall>k\<in>set (referencedList block). \<exists>n\<in>set (foundLists d'). js_toString n = Inr k)"
proof -
  from assms obtain opcode where op: "js_get block ''opcode'' = Inr opcode"
    by (auto simp: scanBlock_def ebind_eq_Inr)
  show ?thesis
  proof (cases "opcode = JStr ''data_setvariableto'' \<or> opcode = JStr ''data_changevariableby''")
    case True
    have l: "referencedList block = []"
      using True op by (simp add: referencedList_def)
    from assms op True have "foundLists d' = foundLists d"
      by (auto simp: scanBlock_def ebind_eq_Inr split: if_splits)
    with l show ?thesis
      by simp
  next
    case False
    from assms op False obtain data where dt: "js_startsWith opcode ''data_'' = Inr data"
      by (auto simp: scanBlock_def ebind_eq_Inr)
    show ?thesis
    proof (cases data)
      case f: False
      with assms op False dt have "d' = d"
        by (auto simp: scanBlock_def)
      moreover have "referencedList block = []"
        using False op dt f by (simp add: referencedList_def)
      ultimately show ?thesis
        by simp
    next
      case True
      with assms op False dt obtain name where n: "field0 block ''LIST'' = Inr name"
        by (auto simp: scanBlock_def ebind_eq_Inr)
      show ?thesis
      proof (cases "js_truthy name")
        case t: True
        with assms op False dt \<open>data\<close> n obtain present vals where
          p: "js_in name (listInitialValues d) = Inr present"
          and d': "d' = d\<lparr>foundLists := set_add (foundLists d) name,
                          listInitialValues := vals\<rparr>"
          by (auto simp: scanBlock_def ebind_eq_Inr)
        from p obtain k where k: "js_toString name = Inr k"
          by (auto simp: js_in_def ebind_eq_Inr)
        have "referencedList block = [k]"
          using False op dt \<open>data\<close> n t k by (simp add: referencedList_def)
        with d' k set_add_found [of "foundLists d" name] show ?thesis
          by auto
      next
        case f: False
        with assms op \<open>\<not> (opcode = JStr ''data_setvariableto'' \<or> opcode = JStr ''data_changevariableby'')\<close>
          dt \<open>data\<close> n have "d' = d"
          by (auto simp: scanBlock_def)
        moreover have "referencedList block = []"
          using \<open>\<not> (opcode = JStr ''data_setvariableto'' \<or> opcode = JStr ''data_changevariableby'')\<close>
            op dt \<open>data\<close> n f by (auto simp: referencedList_def)
        ultimately show ?thesis
          by simp
      qed
    qed
  qed
qed

lemma forEach_scanBlock_found:
  assumes "forEach scanBlock bs d = Inr d'"
  shows "set (foundLists d) \<subseteq> set (foundLists d')
       \<and> (\<forall>k\<in>set (concat (map referencedList bs)). \<exists>n\<in>set (foundLists d'). js_toString n = Inr k)"
  using assms
proof (induction bs arbitrary: d)
  case Nil
  then show ?case by simp
next
  case (Cons b bs)
  from Cons.prems obtain d1 where
    1: "scanBlock b d = Inr d1" and 2: "forEach scanBlock bs d1 = Inr d'"
    by (auto simp: ebind_eq_Inr)
  note a = scanBlock_found [OF 1] and b = Cons.IH [OF 2]
  have "\<exists>n\<in>set (foundLists d'). js_toString n = Inr k"
    if "k \<in> set (concat (map referencedList (b # bs)))" for k
  proof -
    from that consider "k \<in> set (referencedList b)" | "k \<in> set (concat (map referencedList bs))"
      by auto
    then show ?thesis
    proof cases
      case 1
      with a obtain n where "n \<in> set (foundLists d1)" "js_toString n = Inr k"
        by blast
      with b show ?thesis
        by blast
    next
      case 2
      with b show ?thesis
        by blast
    qed
  qed
  with a b show ?case
    by blast
qed

text \<open>Every list that is declared or that a block refers to is among the lists found.\<close>

lemma collectDeclarations_found:
  assumes "collectDeclarations blocks variables lists' = Inr d"
  shows "\<forall>k\<in>dom (declaredLists lists') \<union> set (inferredLists blocks).
           \<exists>n\<in>set (foundLists d). js_toString n = Inr k"
proof -
  let ?d0 = "\<lparr>foundVariables = [], foundLists = [], variableInitialValues = [],
              listInitialValues = []\<rparr>"
  from assms obtain d1 d2 bs d3 where
    2: "(if js_truthy lists' \<and> isObjectType lists' then
              (case lists' of
                 JArr ls \<Rightarrow> forEach addList ls d1
               | _ \<Rightarrow> ebind (js_values lists') (\<lambda>ls. forEach addList ls d1))
            else Inr d1) = Inr d2"
    and 3: "js_values blocks = Inr bs" and 4: "forEach scanBlock bs d2 = Inr d3"
    and 5: "d = d3\<lparr>variableInitialValues := knownVariables (variableInitialValues d3)\<rparr>"
    unfolding collectDeclarations_def ebind_eq_Inr by blast
  have v2: "\<forall>k\<in>dom (declaredLists lists'). \<exists>n\<in>set (foundLists d2). js_toString n = Inr k"
  proof (cases "js_truthy lists' \<and> isObjectType lists'")
    case True
    with 2 obtain ls where ls: "js_values lists' = Inr ls" "forEach addList ls d1 = Inr d2"
      by (cases lists') (auto simp: ebind_eq_Inr)
    from forEach_addList_found [OF ls(2)] True ls(1) show ?thesis
      by (simp add: declaredLists_def)
  next
    case False
    then show ?thesis
      by (auto simp: declaredLists_def)
  qed
  note b = forEach_scanBlock_found [OF 4]
  have "\<exists>n\<in>set (foundLists d). js_toString n = Inr k"
    if "k \<in> dom (declaredLists lists') \<union> set (inferredLists blocks)" for k
  proof -
    from that 3 consider "k \<in> dom (declaredLists lists')"
      | "k \<in> set (concat (map referencedList bs))"
      by (auto simp: inferredLists_def)
    then show ?thesis
    proof cases
      case 1
      with v2 obtain n where "n \<in> set (foundLists d2)" "js_toString n = Inr k"
        by blast
      with b 5 show ?thesis
        by auto
    next
      case 2
      with b 5 show ?thesis
        by auto
    qed
  qed
  then show ?thesis
    by blast
qed

text \<open>What the loop over the lists appends for one list, and for all.\<close>

lemma declareList_line:
  assumes "declareList vals listName code = Inr code'"
  shows "\<exists>l. code' = code @ l
       \<and> (\<forall>name. js_toString listName = Inr name \<and> map_of vals name = Some (JArr []) \<longrightarrow>
            l = (if listName = JStr ''numbers''
                 then ''list.newList(\"numbers\", [1, 2, 3, 4, 5, 6, 7, 8, 9, 10], false);\<newline>''
                 else ''list.createList(\"'' @ name @ ''\");\<newline>''))"
proof (cases "listName = JStr ''numbers''")
  case True
  with assms show ?thesis
    by (auto simp: declareList_def)
next
  case False
  from assms False obtain v filled where
    v: "lookup (JObj vals) listName = Inr v"
    and f: "(if js_truthy v then length_positive v else Inr False) = Inr filled"
    and c: "(if filled then
          (case v of
             JArr xs \<Rightarrow>
               ebind (js_join '', '' (map quoted xs)) (\<lambda>items.
               ebind (template [JStr ''list.newList(\"'', listName, JStr ''\", ['', JStr items,
                                JStr ''], false);\<newline>'']) (\<lambda>l.
               Inr (code @ l)))
           | _ \<Rightarrow> Inl TypeError)
        else
          ebind (template [JStr ''list.createList(\"'', listName, JStr ''\");\<newline>'']) (\<lambda>l.
          Inr (code @ l))) = Inr code'"
    by (auto simp: declareList_def ebind_eq_Inr)
  have 1: "\<exists>l. code' = code @ l"
    using c by (auto simp: ebind_eq_Inr split: if_splits json.splits)
  have 2: "code' = code @ ''list.createList(\"'' @ name @ ''\");\<newline>''"
    if "js_toString listName = Inr name" "map_of vals name = Some (JArr [])" for name
  proof -
    from that v have "v = JArr []"
      by (simp add: lookup_def)
    with f have "\<not> filled"
      by auto
    with c that(1) show ?thesis
      by (simp add: template_def)
  qed
  from 1 obtain l where l: "code' = code @ l"
    by blast
  with 2 False show ?thesis
    by auto
qed

lemma forEach_declareList:
  assumes "forEach (declareList vals) names code = Inr code'"
  shows "\<exists>lines. code' = code @ concat lines
       \<and> list_all2 (\<lambda>listName l. \<forall>name. js_toString listName = Inr name \<and> map_of vals name = Some (JArr []) \<longrightarrow>
            l = (if listName = JStr ''numbers''
                 then ''list.newList(\"numbers\", [1, 2, 3, 4, 5, 6, 7, 8, 9, 10], false);\<newline>''
                 else ''list.createList(\"'' @ name @ ''\");\<newline>'')) names lines"
  using assms
proof (induction names arbitrary: code)
  case Nil
  then show ?case by simp
next
  case (Cons n ns)
  from Cons.prems obtain code1 where
    1: "declareList vals n code = Inr code1" and 2: "forEach (declareList vals) ns code1 = Inr code'"
    by (auto simp: ebind_eq_Inr)
  from declareList_line [OF 1] obtain l where l: "code1 = code @ l"
    "\<forall>name. js_toString n = Inr name \<and> map_of vals name = Some (JArr []) \<longrightarrow>
            l = (if n = JStr ''numbers''
                 then ''list.newList(\"numbers\", [1, 2, 3, 4, 5, 6, 7, 8, 9, 10], false);\<newline>''
                 else ''list.createList(\"'' @ name @ ''\");\<newline>'')"
    by blast
  from Cons.IH [OF 2] obtain ls where ls: "code' = code1 @ concat ls"
    "list_all2 (\<lambda>listName l. \<forall>name. js_toString listName = Inr name \<and> map_of vals name = Some (JArr []) \<longrightarrow>
            l = (if listName = JStr ''numbers''
                 then ''list.newList(\"numbers\", [1, 2, 3, 4, 5, 6, 7, 8, 9, 10], false);\<newline>''
                 else ''list.createList(\"'' @ name @ ''\");\<newline>'')) ns ls"
    by blast
  show ?case
    by (rule exI [of _ "l # ls"]) (use l ls in simp)
qed

lemma forEach_appends:
  assumes "\<And>x c c'. f x c = Inr c' \<Longrightarrow> \<exists>t. c' = c @ t" and "forEach f xs c = Inr c'"
  shows "\<exists>t. c' = c @ t"
  using assms(2)
proof (induction xs arbitrary: c)
  case Nil
  then show ?case by simp
next
  case (Cons x xs)
  from Cons.prems obtain c1 where 1: "f x c = Inr c1" and 2: "forEach f xs c1 = Inr c'"
    by (auto simp: ebind_eq_Inr)
  from assms(1) [OF 1] Cons.IH [OF 2] show ?case
    by auto
qed

text \<open>Claim C8. In the code generated for an actor the lists found, which include every
  list that is declared and every list that a block refers to, are initialized one line
  each, in the order they were found. The line of a list with no initial values (its
  last declaration has a falsy or empty second element, or it has no declaration and a
  block refers to it) is \<^verbatim>\<open>list.newList("numbers", [1, 2, 3, 4, 5, 6, 7, 8, 9, 10], false);\<close>
  when its name is \<^verbatim>\<open>numbers\<close>, the ten numbers 1 to 10 in ascending order, and
  \<^verbatim>\<open>list.createList("name");\<close>, an empty list, under any other name. \<open>name\<close> is the
  name as a string: the key of the list in \<^verbatim>\<open>listInitialValues\<close> and its text in the
  line.\<close>

theorem list_without_values:
  assumes "generateJavaScriptFromBlocks toNumber depth blocks variables lists' = Inr code"
  shows "\<exists>d pre lines post.
           collectDeclarations blocks variables lists' = Inr d
         \<and> (\<forall>name\<in>dom (declaredLists lists') \<union> set (inferredLists blocks).
               \<exists>listName\<in>set (foundLists d). js_toString listName = Inr name)
         \<and> code = pre @ concat lines @ post
         \<and> list_all2 (\<lambda>listName l. \<forall>name. js_toString listName = Inr name
                 \<and> or_inferred (inferredLists blocks) (JArr []) (declaredLists lists') name
                     = Some (JArr []) \<longrightarrow>
               l = (if listName = JStr ''numbers''
                    then ''list.newList(\"numbers\", [1, 2, 3, 4, 5, 6, 7, 8, 9, 10], false);\<newline>''
                    else ''list.createList(\"'' @ name @ ''\");\<newline>''))
             (foundLists d) lines"
proof -
  let ?P = "\<lambda>vals listName l. \<forall>name. js_toString listName = Inr name \<and> vals name = Some (JArr []) \<longrightarrow>
               l = (if listName = JStr ''numbers''
                    then ''list.newList(\"numbers\", [1, 2, 3, 4, 5, 6, 7, 8, 9, 10], false);\<newline>''
                    else ''list.createList(\"'' @ name @ ''\");\<newline>'')"
  from assms obtain d code1 code2 ids where
    d: "collectDeclarations blocks variables lists' = Inr d"
    and 2: "(if foundLists d \<noteq> [] then
              ebind (forEach (declareList (listInitialValues d)) (foundLists d) code1)
                (\<lambda>code. Inr (code @ ''\<newline>''))
            else Inr code1) = Inr code2"
    and 3: "(if ids \<noteq> [] then
       forEach (\<lambda>blockId code.
           ebind (js_get blocks blockId) (\<lambda>block.
           ebind (decompileBlock toNumber depth blocks (JStr blockId) block 0) (\<lambda>r.
           ebind (js_toString r) (\<lambda>text. Inr (code @ text @ ''\<newline>'')))))
         ids (code2 @ ''// Main code\<newline>'')
     else Inr (code2 @ ''// No blocks found\<newline>'')) = Inr code"
    unfolding generateJavaScriptFromBlocks_def ebind_eq_Inr by blast
  from collectDeclarations_values [OF d]
  have v: "map_of (listInitialValues d)
             = or_inferred (inferredLists blocks) (JArr []) (declaredLists lists')"
    by auto
  have "\<exists>lines rest. code2 = code1 @ concat lines @ rest
          \<and> list_all2 (?P (map_of (listInitialValues d))) (foundLists d) lines"
  proof (cases "foundLists d = []")
    case True
    with 2 have "code2 = code1 @ concat [] @ []"
      "list_all2 (?P (map_of (listInitialValues d))) (foundLists d) []"
      by simp_all
    then show ?thesis
      by blast
  next
    case False
    with 2 obtain c where
      c: "forEach (declareList (listInitialValues d)) (foundLists d) code1 = Inr c"
      and c2: "code2 = c @ ''\<newline>''"
      by (auto simp: ebind_eq_Inr)
    from forEach_declareList [OF c] obtain lines where
      "c = code1 @ concat lines"
      and a: "list_all2 (?P (map_of (listInitialValues d))) (foundLists d) lines"
      by blast
    with c2 have "code2 = code1 @ concat lines @ ''\<newline>''"
      by simp
    with a show ?thesis
      by blast
  qed
  then obtain lines rest where
    l: "code2 = code1 @ concat lines @ rest"
      "list_all2 (?P (map_of (listInitialValues d))) (foundLists d) lines"
    by blast
  have "\<exists>t. code = code2 @ t"
  proof (cases "ids = []")
    case True
    with 3 show ?thesis
      by auto
  next
    case False
    with 3 have "\<exists>t. code = (code2 @ ''// Main code\<newline>'') @ t"
      by (intro forEach_appends [where xs = ids and c = "code2 @ ''// Main code\<newline>''"])
        (auto simp: ebind_eq_Inr)
    then show ?thesis
      by auto
  qed
  then obtain t where "code = code2 @ t"
    by blast
  with l(1) have "code = code1 @ concat lines @ (rest @ t)"
    by simp
  with d collectDeclarations_found [OF d] l(2) show ?thesis
    unfolding v by blast
qed

text \<open>The theorem at the example: \<^verbatim>\<open>numbers\<close> and \<^verbatim>\<open>scores\<close> are declared without
  values, \<^verbatim>\<open>items\<close> is found in a block.\<close>

theorem list_without_values_witness:
  "generateJavaScriptFromBlocks decimalNumber 5 ex_seed_blocks (JObj []) ex_seed_lists
     = Inr ex_seed_code
   \<and> collectDeclarations ex_seed_blocks (JObj []) ex_seed_lists = Inr ex_seed_decls
   \<and> ''items'' \<in> set (inferredLists ex_seed_blocks)
   \<and> (\<exists>listName\<in>set (foundLists ex_seed_decls). js_toString listName = Inr ''items'')
   \<and> (\<exists>pre post. ex_seed_code =
        pre @ ''list.newList(\"numbers\", [1, 2, 3, 4, 5, 6, 7, 8, 9, 10], false);\<newline>''
            @ ''list.createList(\"scores\");\<newline>''
            @ ''list.createList(\"items\");\<newline>'' @ post)"
proof -
  have 1: "generateJavaScriptFromBlocks decimalNumber 5 ex_seed_blocks (JObj []) ex_seed_lists
             = Inr ex_seed_code"
    by code_simp
  have 2: "collectDeclarations ex_seed_blocks (JObj []) ex_seed_lists = Inr ex_seed_decls"
    by code_simp
  have n: "or_inferred (inferredLists ex_seed_blocks) (JArr []) (declaredLists ex_seed_lists)
             ''numbers'' = Some (JArr [])"
    "or_inferred (inferredLists ex_seed_blocks) (JArr []) (declaredLists ex_seed_lists)
             ''scores'' = Some (JArr [])"
    "or_inferred (inferredLists ex_seed_blocks) (JArr []) (declaredLists ex_seed_lists)
             ''items'' = Some (JArr [])"
    by code_simp+
  have i: "''items'' \<in> set (inferredLists ex_seed_blocks)"
    by code_simp
  from list_without_values [OF 1] 2 obtain pre lines post where
    m: "\<forall>name\<in>dom (declaredLists ex_seed_lists) \<union> set (inferredLists ex_seed_blocks).
          \<exists>listName\<in>set (foundLists ex_seed_decls). js_toString listName = Inr name"
    and c: "ex_seed_code = pre @ concat lines @ post"
    and l: "list_all2 (\<lambda>listName l. \<forall>name. js_toString listName = Inr name
                 \<and> or_inferred (inferredLists ex_seed_blocks) (JArr []) (declaredLists ex_seed_lists)
                     name = Some (JArr []) \<longrightarrow>
               l = (if listName = JStr ''numbers''
                    then ''list.newList(\"numbers\", [1, 2, 3, 4, 5, 6, 7, 8, 9, 10], false);\<newline>''
                    else ''list.createList(\"'' @ name @ ''\");\<newline>''))
             (foundLists ex_seed_decls) lines"
    by auto
  from l n have "lines = [''list.newList(\"numbers\", [1, 2, 3, 4, 5, 6, 7, 8, 9, 10], false);\<newline>'',
      ''list.createList(\"scores\");\<newline>'', ''list.createList(\"items\");\<newline>'']"
    by (auto simp: ex_seed_decls_def list_all2_Cons1)
  with c have "\<exists>pre post. ex_seed_code =
        pre @ ''list.newList(\"numbers\", [1, 2, 3, 4, 5, 6, 7, 8, 9, 10], false);\<newline>''
            @ ''list.createList(\"scores\");\<newline>''
            @ ''list.createList(\"items\");\<newline>'' @ post"
    by (intro exI [of _ pre] exI [of _ post]) simp
  moreover from m i
  have "\<exists>listName\<in>set (foundLists ex_seed_decls). js_toString listName = Inr ''items''"
    by blast
  ultimately show ?thesis
    using 1 2 i by blast
qed

subsection \<open>Cyclic next chains\<close>

lemma breaks_Break: "breaks (Inr (Break c))"
  by (simp add: breaks_def)

lemma breaks_ebind: "(\<And>x. breaks (f x)) \<Longrightarrow> breaks (ebind m f)"
  by (cases m) (simp_all add: breaks_def)

lemma breaks_line: "breaks (line parts)"
  by (simp add: line_def breaks_ebind breaks_Break)

lemma breaks_braces: "breaks (braces dec blocks block indentation header)"
  by (simp add: braces_def breaks_ebind breaks_Break)

lemma breaks_if: "(c \<Longrightarrow> breaks a) \<Longrightarrow> (\<not> c \<Longrightarrow> breaks b) \<Longrightarrow> breaks (if c then a else b)"
  by simp

text \<open>Every case of the switch but those of the expression opcodes ends in \<^verbatim>\<open>break\<close>, or
  raises.\<close>

lemma switch_breaks:
  assumes "js_get block ''opcode'' = Inr (JStr opc)" and "opc \<notin> set expression_opcodes"
  shows "breaks (decompileSwitch pin dec blocks block indentation)"
  unfolding decompileSwitch_def Let_def
  apply (simp only: assms(1) ebind_Inr)
  apply (intro breaks_if breaks_ebind breaks_line breaks_braces breaks_Break)
  using assms(2)
                      apply (simp_all add: expression_opcodes_def)
  done

lemma js_get_truthy: "js_get v k = Inr x \<Longrightarrow> js_truthy v"
  by (cases v) simp_all

lemma ebind_fails: "(\<And>x. m = Inr x \<Longrightarrow> \<exists>e. f x = Inl e) \<Longrightarrow> \<exists>e. ebind m f = Inl e"
  by (cases m) simp_all

text \<open>On a set of blocks closed under \<^verbatim>\<open>next\<close>, none an expression block, decompileBlock
  returns no text at any depth: each call goes on to the next block.\<close>

lemma cycle_never_returns:
  assumes closed: "\<And>b. b \<in> C \<Longrightarrow>
      \<exists>opc next b'. js_get b ''opcode'' = Inr (JStr opc) \<and> opc \<notin> set expression_opcodes
        \<and> js_get b ''next'' = Inr next \<and> js_truthy next \<and> lookup blocks next = Inr b' \<and> b' \<in> C"
  shows "b \<in> C \<Longrightarrow> \<exists>e. decompileBlock toNumber depth blocks blockId b indentation = Inl e"
proof (induction depth arbitrary: b blockId indentation)
  case 0
  show ?case by (simp add: decompileBlock.simps)
next
  case (Suc depth)
  from closed [OF Suc.prems] obtain opc "next" b' where
    opc: "js_get b ''opcode'' = Inr (JStr opc)" "opc \<notin> set expression_opcodes"
    and nx: "js_get b ''next'' = Inr next" "js_truthy next" "lookup blocks next = Inr b'"
    and b': "b' \<in> C"
    by blast
  from closed [OF b'] have tb: "js_truthy b'"
    by (auto dest: js_get_truthy)
  from Suc.IH [OF b'] obtain e where
    "decompileBlock toNumber depth blocks next b' indentation = Inl e"
    by blast
  with nx tb have chain:
    "next_chain (decompileBlock toNumber depth blocks) blocks b indentation = Inl e"
    by (simp add: next_chain_def)
  have "breaks (decompileSwitch (processInput toNumber depth blocks)
                  (decompileBlock toNumber depth blocks) blocks b indentation)"
    by (rule switch_breaks [OF opc])
  then show ?case
    using chain
    by (cases "decompileSwitch (processInput toNumber depth blocks)
                  (decompileBlock toNumber depth blocks) blocks b indentation")
      (auto simp: decompileBlock.simps breaks_def split: completion.splits)
qed

lemma forEach_fails:
  assumes "x \<in> set xs" and "\<And>s. \<exists>e. f x s = Inl e"
  shows "\<exists>e. forEach f xs s = Inl e"
  using assms(1)
proof (induction xs arbitrary: s)
  case Nil
  then show ?case by simp
next
  case (Cons y ys)
  show ?case
  proof (cases "f y s")
    case (Inl e)
    then show ?thesis by simp
  next
    case (Inr s')
    show ?thesis
    proof (cases "x = y")
      case True
      with assms(2) [of s] Inr show ?thesis by simp
    next
      case False
      with Cons.prems have "x \<in> set ys" by simp
      from Cons.IH [OF this, of s'] Inr show ?thesis by simp
    qed
  qed
qed

lemma generate_fails:
  assumes closed: "\<And>b. b \<in> C \<Longrightarrow>
      \<exists>opc next b'. js_get b ''opcode'' = Inr (JStr opc) \<and> opc \<notin> set expression_opcodes
        \<and> js_get b ''next'' = Inr next \<and> js_truthy next \<and> lookup blocks next = Inr b' \<and> b' \<in> C"
    and "findTopLevelBlocks blocks = Inr ids" and "k \<in> set ids"
    and "js_get blocks k = Inr b" and "b \<in> C"
  shows "\<exists>e. generateJavaScriptFromBlocks toNumber depth blocks variables lists' = Inl e"
proof -
  have step: "\<exists>e. ebind (js_get blocks k) (\<lambda>block.
           ebind (decompileBlock toNumber depth blocks (JStr k) block 0) (\<lambda>r.
           ebind (js_toString r) (\<lambda>text. Inr (code @ text @ ''\<newline>'')))) = Inl e" for code
    using cycle_never_returns [OF closed assms(5), of toNumber depth "JStr k" 0] assms(4)
    by auto
  have loop: "\<exists>e. forEach (\<lambda>blockId code.
           ebind (js_get blocks blockId) (\<lambda>block.
           ebind (decompileBlock toNumber depth blocks (JStr blockId) block 0) (\<lambda>r.
           ebind (js_toString r) (\<lambda>text. Inr (code @ text @ ''\<newline>'')))))
         ids code = Inl e" for code
    by (rule forEach_fails [OF assms(3)]) (rule step)
  have ne: "ids \<noteq> []"
    using assms(3) by auto
  show ?thesis
    unfolding generateJavaScriptFromBlocks_def
    apply (intro ebind_fails)
    using loop ne apply (simp add: assms(2))
    done
qed

text \<open>The case of a block without arguments, an event block apart, ends in \<^verbatim>\<open>break\<close>
  with its line: absent fields give the defaults, absent inputs the text \<^verbatim>\<open>null\<close>, and
  an absent body nothing. The case of an event block goes on to the next block itself.\<close>

lemma completes_if:
  "(c \<Longrightarrow> completes a) \<Longrightarrow> (\<not> c \<Longrightarrow> completes b) \<Longrightarrow> completes (if c then a else b)"
  by simp

lemma bare_field_or:
  assumes "bare block" and "name \<notin> set Object_prototype"
  shows "field_or block name dflt = Inr (JStr dflt)"
  using assms
  by (auto simp: bare_def field_or_def field0_def js_get_opt_def js_at_opt_def nullish_def
      js_or_def)

lemma bare_input_of:
  assumes "bare block" and "name \<notin> set Object_prototype"
  shows "input_of block name = Inr JUndefined"
  using assms
  by (auto simp: bare_def input_of_def js_get_opt_def nullish_def)

lemma bare_processInputOf:
  assumes "bare block" and "name \<notin> set Object_prototype"
    and "\<And>k. pin JUndefined k = Inr (JStr ''null'')"
  shows "processInputOf pin block name indentation = Inr (JStr ''null'')"
  using assms
  by (simp add: processInputOf_def bare_input_of)

lemma bare_substack:
  assumes "bare block" and "name \<notin> set Object_prototype"
  shows "substack dec blocks block name indentation = Inr []"
  using assms
  by (simp add: substack_def bare_input_of)

lemma switch_bare:
  assumes "js_get block ''opcode'' = Inr (JStr opc)" and "opc \<notin> set expression_opcodes"
    and "opc \<noteq> ''event_whenflagclicked''" and "bare block"
    and pin: "\<And>k. pin JUndefined k = Inr (JStr ''null'')"
  shows "completes (decompileSwitch pin dec blocks block indentation)"
proof -
  from assms(4) obtain inputs where
    i: "js_get block ''inputs'' = Inr inputs" "inputs = JUndefined \<or> inputs = JObj []"
    and m: "js_get block ''mutation'' = Inr JUndefined"
    by (auto simp: bare_def)
  have p: "name \<notin> set Object_prototype \<Longrightarrow>
             processInputOf pin block name k = Inr (JStr ''null'')" for name k
    using assms(4) _ pin by (rule bare_processInputOf)
  note f = bare_field_or [OF assms(4)] p bare_substack [OF assms(4)]
  show ?thesis
    unfolding decompileSwitch_def Let_def
    apply (simp only: assms(1) ebind_Inr)
    apply (intro completes_if)
    using assms(2,3) i m
                        apply (simp_all add: f Object_prototype_def expression_opcodes_def line_def
        braces_def template_def completes_def js_get_opt_def nullish_def js_or_def js_join_def)
    done
qed

lemma switch_event:
  assumes "js_get block ''opcode'' = Inr (JStr ''event_whenflagclicked'')"
  shows "decompileSwitch pin dec blocks block indentation =
           ebind (next_chain dec blocks block indentation) (\<lambda>rest.
           Inr (Break (replicate (indentation * 4) CHR '' '' @ ''// When green flag clicked\<newline>''
                       @ rest)))"
  by (simp add: decompileSwitch_def template_def assms)

text \<open>On such a set of blocks without arguments the exception is the RangeError of the
  stack: no case raises before the call on the next block.\<close>

lemma bare_cycle_RangeError:
  assumes closed: "\<And>b. b \<in> C \<Longrightarrow>
      \<exists>opc next b'. js_get b ''opcode'' = Inr (JStr opc) \<and> opc \<notin> set expression_opcodes
        \<and> js_get b ''next'' = Inr next \<and> js_truthy next \<and> lookup blocks next = Inr b' \<and> b' \<in> C"
    and bare: "\<And>b. b \<in> C \<Longrightarrow> bare b"
  shows "b \<in> C \<Longrightarrow> decompileBlock toNumber depth blocks blockId b indentation = Inl RangeError"
proof (induction depth arbitrary: b blockId indentation)
  case 0
  show ?case by (simp add: decompileBlock.simps)
next
  case (Suc depth)
  from closed [OF Suc.prems] obtain opc "next" b' where
    opc: "js_get b ''opcode'' = Inr (JStr opc)" "opc \<notin> set expression_opcodes"
    and nx: "js_get b ''next'' = Inr next" "js_truthy next" "lookup blocks next = Inr b'"
    and b': "b' \<in> C"
    by blast
  from closed [OF b'] have tb: "js_truthy b'"
    by (auto dest: js_get_truthy)
  from Suc.IH [OF b'] nx tb have chain:
    "next_chain (decompileBlock toNumber depth blocks) blocks b indentation = Inl RangeError"
    by (simp add: next_chain_def)
  show ?case
  proof (cases "opc = ''event_whenflagclicked''")
    case True
    with opc(1) chain show ?thesis
      by (simp add: decompileBlock.simps switch_event)
  next
    case False
    have "completes (decompileSwitch (processInput toNumber depth blocks)
                  (decompileBlock toNumber depth blocks) blocks b indentation)"
      using opc False bare [OF Suc.prems]
      by (rule switch_bare) (simp add: processInput_falsy)
    with chain show ?thesis
      by (auto simp: completes_def decompileBlock.simps)
  qed
qed

text \<open>Claim C1, amended. Let the graph of an actor hold a set of blocks, none an
  expression block, in which every block has a \<^verbatim>\<open>next\<close> that names a block of the set (a
  cyclic \<^verbatim>\<open>next\<close> chain), and let one of them be an entry point. Then the call of
  decompileBlock for that entry point returns no text, whatever depth of calls the stack
  has room for: no step or visited guard bounds the recursion, and what ends it is an
  exception, not a StructuralOverflow report. When the blocks of the set have no
  arguments, the exception is the RangeError of the engine, the stack being used up;
  otherwise it may be one that the case of a block raises on the way. Code generation
  for that actor returns no text either, and the loop over the actors does not catch
  the exception: it ends at that actor, and neither that actor nor any actor after it
  is written.\<close>

theorem cyclic_next_chain:
  assumes closed: "\<And>b. b \<in> C \<Longrightarrow>
      \<exists>opc next b'. js_get b ''opcode'' = Inr (JStr opc) \<and> opc \<notin> set expression_opcodes
        \<and> js_get b ''next'' = Inr next \<and> js_truthy next \<and> lookup blocks next = Inr b' \<and> b' \<in> C"
    and "findTopLevelBlocks blocks = Inr ids" and "k \<in> set ids"
    and "js_get blocks k = Inr b" and "b \<in> C"
    and "js_get sprite ''isStage'' = Inr isStage" and "\<not> js_truthy isStage"
    and "js_get sprite ''blocks'' = Inr blocks"
  shows "(\<forall>text. decompileBlock toNumber depth blocks (JStr k) b 0 \<noteq> Inr text)
       \<and> ((\<forall>c\<in>C. bare c) \<longrightarrow>
            decompileBlock toNumber depth blocks (JStr k) b 0 = Inl RangeError)
       \<and> (\<forall>text. generateJavaScriptFromBlocks toNumber depth blocks variables lists' \<noteq> Inr text)
       \<and> (\<exists>e. spriteLoop toNumber depth (sprite # rest) files = (files, Some e))"
proof -
  from cycle_never_returns [OF closed assms(5)] obtain e where
    "decompileBlock toNumber depth blocks (JStr k) b 0 = Inl e"
    by blast
  then have d: "\<forall>text. decompileBlock toNumber depth blocks (JStr k) b 0 \<noteq> Inr text"
    by simp
  have r: "decompileBlock toNumber depth blocks (JStr k) b 0 = Inl RangeError" if "\<forall>c\<in>C. bare c"
    using that by (intro bare_cycle_RangeError [OF closed _ assms(5)]) blast+
  have g: "\<exists>e. generateJavaScriptFromBlocks toNumber depth blocks v l = Inl e" for v l
    by (rule generate_fails [OF closed assms(2-5)])
  then have g': "generateJavaScriptFromBlocks toNumber depth blocks v l \<noteq> Inr y" for v l y
    by (metis sum.distinct(1))
  have tb: "js_truthy blocks"
    using assms(4) by (rule js_get_truthy)
  have "\<exists>e. ebind (js_get sprite ''name'') (\<lambda>spriteName.
                  ebind (case spriteName of JStr s \<Rightarrow> Inr s | _ \<Rightarrow> Inl TypeError) (\<lambda>name.
                  ebind (js_get sprite ''blocks'') (\<lambda>b.
                  ebind (js_get sprite ''variables'') (\<lambda>v.
                  ebind (js_get sprite ''lists'') (\<lambda>l.
                  ebind (generateJavaScriptFromBlocks toNumber depth
                           (js_or b (JObj [])) (js_or v (JObj [])) (js_or l (JObj [])))
                    (\<lambda>spriteCode.
                  Inr (name, spriteCode))))))) = Inl e"
    apply (intro ebind_fails)
    using tb g' apply (simp add: assms(8) js_or_def)
    done
  then have "\<exists>e. spriteLoop toNumber depth (sprite # rest) files = (files, Some e)"
    using assms(6,7) by auto
  with d r g' show ?thesis
    by blast
qed

text \<open>The theorem at the sprite of the example, whose two blocks name each other and
  have no arguments.\<close>

theorem cyclic_next_chain_witness:
  "findTopLevelBlocks ex_cycle = Inr [''A'']
   \<and> js_get ex_cycle ''A'' = Inr ex_cycle_A
   \<and> js_get ex_cat ''blocks'' = Inr ex_cycle
   \<and> bare ex_cycle_A \<and> bare ex_cycle_B
   \<and> decompileBlock decimalNumber 1000 ex_cycle (JStr ''A'') ex_cycle_A 0 = Inl RangeError
   \<and> (\<exists>e. generateJavaScriptFromBlocks decimalNumber 1000 ex_cycle (JObj []) (JObj []) = Inl e)
   \<and> (\<exists>e. spriteLoop decimalNumber 1000 [ex_cat] [] = ([], Some e))"
proof -
  have closed: "\<exists>opc next b'. js_get b ''opcode'' = Inr (JStr opc) \<and> opc \<notin> set expression_opcodes
        \<and> js_get b ''next'' = Inr next \<and> js_truthy next \<and> lookup ex_cycle next = Inr b'
        \<and> b' \<in> {ex_cycle_A, ex_cycle_B}"
    if "b \<in> {ex_cycle_A, ex_cycle_B}" for b
  proof -
    have A: "js_get ex_cycle_A ''opcode'' = Inr (JStr ''event_whenflagclicked'')
        \<and> ''event_whenflagclicked'' \<notin> set expression_opcodes
        \<and> js_get ex_cycle_A ''next'' = Inr (JStr ''B'') \<and> js_truthy (JStr ''B'')
        \<and> lookup ex_cycle (JStr ''B'') = Inr ex_cycle_B
        \<and> ex_cycle_B \<in> {ex_cycle_A, ex_cycle_B}"
      by (simp add: ex_cycle_A_def lookup_def ex_cycle_def expression_opcodes_def)
    have B: "js_get ex_cycle_B ''opcode'' = Inr (JStr ''looks_show'')
        \<and> ''looks_show'' \<notin> set expression_opcodes
        \<and> js_get ex_cycle_B ''next'' = Inr (JStr ''A'') \<and> js_truthy (JStr ''A'')
        \<and> lookup ex_cycle (JStr ''A'') = Inr ex_cycle_A
        \<and> ex_cycle_A \<in> {ex_cycle_A, ex_cycle_B}"
      by (simp add: ex_cycle_B_def lookup_def ex_cycle_def expression_opcodes_def)
    from that consider "b = ex_cycle_A" | "b = ex_cycle_B"
      by auto
    then show ?thesis
    proof cases
      case 1
      with A show ?thesis by blast
    next
      case 2
      with B show ?thesis by blast
    qed
  qed
  have 2: "findTopLevelBlocks ex_cycle = Inr [''A'']"
    by code_simp
  have 3: "''A'' \<in> set [''A'']"
    by simp
  have 4: "js_get ex_cycle ''A'' = Inr ex_cycle_A"
    by (simp add: ex_cycle_def)
  have 5: "ex_cycle_A \<in> {ex_cycle_A, ex_cycle_B}"
    by simp
  have 6: "js_get ex_cat ''isStage'' = Inr (JBool False)"
    by (simp add: ex_cat_def)
  have 7: "\<not> js_truthy (JBool False)"
    by simp
  have 8: "js_get ex_cat ''blocks'' = Inr ex_cycle"
    by (simp add: ex_cat_def)
  have 9: "bare ex_cycle_A \<and> bare ex_cycle_B"
    by (simp add: bare_def ex_cycle_A_def ex_cycle_B_def Object_prototype_def)
  note t = cyclic_next_chain [of "{ex_cycle_A, ex_cycle_B}" ex_cycle, OF closed 2 3 4 5 6 7 8,
      of decimalNumber 1000 "JObj []" "JObj []" "[]" "[]"]
  from t 9 have r: "decompileBlock decimalNumber 1000 ex_cycle (JStr ''A'') ex_cycle_A 0
                      = Inl RangeError"
    by simp
  from t have "\<exists>e. generateJavaScriptFromBlocks decimalNumber 1000 ex_cycle (JObj []) (JObj []) = Inl e"
    by (cases "generateJavaScriptFromBlocks decimalNumber 1000 ex_cycle (JObj []) (JObj [])") simp_all
  with t r 2 4 8 9 show ?thesis
    by simp
qed

text \<open>With a block whose own case raises, the exception is that one as soon as the
  stack has room for two calls: \<^verbatim>\<open>escapeString(42)\<close> calls \<^verbatim>\<open>replace\<close> on a number, a
  TypeError.\<close>

lemma ex_say_cycle_TypeError:
  "decompileBlock decimalNumber (Suc (Suc depth)) ex_say_cycle (JStr ''A'') ex_cycle_A 0
     = Inl TypeError
   \<and> generateJavaScriptFromBlocks decimalNumber (Suc (Suc depth)) ex_say_cycle (JObj []) (JObj [])
     = Inl TypeError"
proof -
  have opA: "js_get ex_cycle_A ''opcode'' = Inr (JStr ''event_whenflagclicked'')"
    by (simp add: ex_cycle_A_def)
  have opB: "js_get ex_say_B ''opcode'' = Inr (JStr ''looks_say'')"
    by (simp add: ex_say_B_def)
  have f: "field_or ex_say_B ''MESSAGE'' [] = Inr (JNum ''42'')"
    by (simp add: ex_say_B_def field_or_def field0_def js_get_opt_def js_at_opt_def nullish_def
        js_or_def)
  have sB: "decompileSwitch pin dec ex_say_cycle ex_say_B k = Inl TypeError" for pin dec k
    by (simp add: decompileSwitch_def opB f)
  then have B: "decompileBlock decimalNumber (Suc depth) ex_say_cycle (JStr ''B'') ex_say_B k
             = Inl TypeError" for k
    by (simp add: decompileBlock.simps)
  have nx: "js_get ex_cycle_A ''next'' = Inr (JStr ''B'')"
    by (simp add: ex_cycle_A_def)
  have lk: "lookup ex_say_cycle (JStr ''B'') = Inr ex_say_B"
    by (simp add: lookup_def ex_say_cycle_def)
  have tr: "js_truthy ex_say_B"
    by (simp add: ex_say_B_def)
  have nA: "next_chain (decompileBlock decimalNumber (Suc depth) ex_say_cycle) ex_say_cycle
              ex_cycle_A k = Inl TypeError" for k
    by (simp add: next_chain_def nx lk tr B)
  have A: "decompileBlock decimalNumber (Suc (Suc depth)) ex_say_cycle (JStr ''A'') ex_cycle_A 0
             = Inl TypeError"
    by (simp add: decompileBlock.simps switch_event [OF opA] nA)
  have c: "collectDeclarations ex_say_cycle (JObj []) (JObj []) =
        Inr \<lparr>foundVariables = [], foundLists = [],
             variableInitialValues = knownVariables [], listInitialValues = []\<rparr>"
    by code_simp
  have t: "findTopLevelBlocks ex_say_cycle = Inr [''A'']"
    by code_simp
  have a: "js_get ex_say_cycle ''A'' = Inr ex_cycle_A"
    by (simp add: ex_say_cycle_def)
  have "generateJavaScriptFromBlocks decimalNumber (Suc (Suc depth)) ex_say_cycle (JObj []) (JObj [])
             = Inl TypeError"
    by (simp add: generateJavaScriptFromBlocks_def c t a A)
  with A show ?thesis
    by simp
qed

text \<open>The graph of the example at every depth of the call stack.\<close>

lemma ex_cycle_RangeError:
  "decompileBlock decimalNumber depth ex_cycle ida ex_cycle_A a = Inl RangeError
   \<and> decompileBlock decimalNumber depth ex_cycle idb ex_cycle_B b = Inl RangeError"
proof (induction depth arbitrary: ida idb a b)
  case 0
  show ?case by (simp add: decompileBlock.simps)
next
  case (Suc depth)
  have opA: "js_get ex_cycle_A ''opcode'' = Inr (JStr ''event_whenflagclicked'')"
    by (simp add: ex_cycle_A_def)
  have opB: "js_get ex_cycle_B ''opcode'' = Inr (JStr ''looks_show'')"
    by (simp add: ex_cycle_B_def)
  have lk: "lookup ex_cycle (JStr ''A'') = Inr ex_cycle_A"
    "lookup ex_cycle (JStr ''B'') = Inr ex_cycle_B"
    by (simp_all add: lookup_def ex_cycle_def)
  have tr: "js_truthy ex_cycle_A" "js_truthy ex_cycle_B"
    by (simp_all add: ex_cycle_A_def ex_cycle_B_def)
  have nA: "js_get ex_cycle_A ''next'' = Inr (JStr ''B'')"
    by (simp add: ex_cycle_A_def)
  have nB: "js_get ex_cycle_B ''next'' = Inr (JStr ''A'')"
    by (simp add: ex_cycle_B_def)
  have A: "next_chain (decompileBlock decimalNumber depth ex_cycle) ex_cycle ex_cycle_A a
             = Inl RangeError"
    using Suc.IH by (simp add: next_chain_def nA lk tr)
  have B: "next_chain (decompileBlock decimalNumber depth ex_cycle) ex_cycle ex_cycle_B b
             = Inl RangeError"
    using Suc.IH by (simp add: next_chain_def nB lk tr)
  have sA: "decompileSwitch pin (decompileBlock decimalNumber depth ex_cycle) ex_cycle ex_cycle_A a
             = Inl RangeError" for pin
    by (simp add: decompileSwitch_def template_def opA A)
  have sB: "decompileSwitch pin dec ex_cycle ex_cycle_B b
             = Inr (Break (replicate (b * 4) CHR '' '' @ ''looks.show();\<newline>''))" for pin dec
    by (simp add: decompileSwitch_def template_def line_def opB)
  show ?case
    using sA sB B by (simp add: decompileBlock.simps)
qed

lemma ex_project_RangeError:
  "generateJavaScriptFromBlocks decimalNumber depth ex_cycle (JObj []) (JObj []) = Inl RangeError
   \<and> createjvavscratchProject decimalNumber depth ex_project
       = ([(''Stage'', ''// Decompiled from Scratch project\<newline>\<newline>// No blocks found\<newline>'')],
          Some RangeError)"
proof -
  have c: "collectDeclarations ex_cycle (JObj []) (JObj []) =
        Inr \<lparr>foundVariables = [], foundLists = [],
             variableInitialValues = knownVariables [], listInitialValues = []\<rparr>"
    by code_simp
  have t: "findTopLevelBlocks ex_cycle = Inr [''A'']"
    by code_simp
  have a: "js_get ex_cycle ''A'' = Inr ex_cycle_A"
    by (simp add: ex_cycle_def)
  have g: "generateJavaScriptFromBlocks decimalNumber depth ex_cycle (JObj []) (JObj [])
             = Inl RangeError"
    by (simp add: generateJavaScriptFromBlocks_def c t a ex_cycle_RangeError)
  have s: "generateJavaScriptFromBlocks decimalNumber depth (JObj []) (JObj []) (JObj [])
             = Inr ''// Decompiled from Scratch project\<newline>\<newline>// No blocks found\<newline>''"
    by code_simp
  have te: "js_truthy ex_cycle"
    by (simp add: ex_cycle_def)
  have sd: "stageData ex_project ''blocks'' = Inr (JObj [])"
    "stageData ex_project ''variables'' = Inr (JObj [])"
    "stageData ex_project ''lists'' = Inr (JObj [])"
    "stageData ex_project ''broadcasts'' = Inr (JObj [])"
    by (simp_all add: stageData_def ex_project_def js_get_opt_def nullish_def js_or_def
        Object_prototype_def)
  have "createjvavscratchProject decimalNumber depth ex_project
         = ([(''Stage'', ''// Decompiled from Scratch project\<newline>\<newline>// No blocks found\<newline>'')],
            Some RangeError)"
    unfolding createjvavscratchProject_def
    by (simp add: sd s) (simp add: ex_project_def ex_cat_def js_or_def g te Object_prototype_def)
  with g show ?thesis
    by simp
qed

text \<open>Claim C1 as stated fails at the example. With room for ten thousand nested calls
  (and, by the lemma above, with any other room) generation for the actor with the
  cycle uses the stack up and ends in the engine's RangeError; and the project ends
  with the stage written and that exception: the sprite after the one with the cycle,
  whose graph is empty, is not generated.\<close>

theorem cyclic_graph_exhausts_the_stack:
  "generateJavaScriptFromBlocks decimalNumber 10000 ex_cycle (JObj []) (JObj []) = Inl RangeError
   \<and> createjvavscratchProject decimalNumber 10000 ex_project
       = ([(''Stage'', ''// Decompiled from Scratch project\<newline>\<newline>// No blocks found\<newline>'')],
          Some RangeError)"
  by (rule ex_project_RangeError)

end
